theory Spec2Isabelle
  imports Main
begin

section \<open>JavaScript values used by the order projection code\<close>

text \<open>
  A JavaScript string is modelled as a \<^typ>\<open>string\<close>: a list of code units, each of them in
  the range U+0000..U+00FF. Case conversion is modelled on the ASCII letters (every other
  code unit is carried unchanged); the white space of \<open>String.prototype.trim\<close> and of the
  regular expression class \<open>\s\<close> is the ECMAScript set restricted to that range.
\<close>

definition isSpace :: "char \<Rightarrow> bool" where
  "isSpace c = (of_char c \<in> {9, 10, 11, 12, 13, 32, 160 :: nat})"

definition isLineTerminator :: "char \<Rightarrow> bool" where
  "isLineTerminator c = (of_char c \<in> {10, 13 :: nat})"

definition isDigit :: "char \<Rightarrow> bool" where
  "isDigit c = (48 \<le> (of_char c :: nat) \<and> (of_char c :: nat) \<le> 57)"

definition trim :: "string \<Rightarrow> string" where
  "trim s = rev (dropWhile isSpace (rev (dropWhile isSpace s)))"

definition lowerChar :: "char \<Rightarrow> char" where
  "lowerChar c = (let n = (of_char c :: nat) in if 65 \<le> n \<and> n \<le> 90 then char_of (n + 32) else c)"

definition upperChar :: "char \<Rightarrow> char" where
  "upperChar c = (let n = (of_char c :: nat) in if 97 \<le> n \<and> n \<le> 122 then char_of (n - 32) else c)"

definition toLowerCase :: "string \<Rightarrow> string" where
  "toLowerCase s = map lowerChar s"

definition toUpperCase :: "string \<Rightarrow> string" where
  "toUpperCase s = map upperChar s"

text \<open>\<open>Array.prototype.join\<close> on an array of strings.\<close>

fun join :: "string \<Rightarrow> string list \<Rightarrow> string" where
  "join sep [] = []"
| "join sep [x] = x"
| "join sep (x # y # ys) = x @ sep @ join sep (y # ys)"

text \<open>
  \<open>s.split(", ")\<close>: the pieces between the successive, non-overlapping occurrences of the
  two-character separator, scanning from the left; \<open>acc\<close> is the piece being read.
\<close>

fun splitCommaSpace :: "string \<Rightarrow> string \<Rightarrow> string list" where
  "splitCommaSpace acc [] = [acc]"
| "splitCommaSpace acc [c] = [acc @ [c]]"
| "splitCommaSpace acc (c # d # r) =
     (if c = CHR '','' \<and> d = CHR '' '' then acc # splitCommaSpace [] r
      else splitCommaSpace (acc @ [c]) (d # r))"

text \<open>Decimal rendering of a non-negative integer, as template literals and \<open>toString\<close> give it.\<close>

definition digitChar :: "nat \<Rightarrow> char" where
  "digitChar d = char_of (48 + d)"

function showNat :: "nat \<Rightarrow> string" where
  "showNat n = (if n < 10 then [digitChar n] else showNat (n div 10) @ [digitChar (n mod 10)])"
  by pat_completeness auto
termination
  by (relation "measure id") auto

declare showNat.simps [simp del]

text \<open>
  An object literal used as a dictionary also answers for the properties it inherits from
  \<open>Object.prototype\<close>: \<open>obj[key]\<close> is then a function (or, for \<open>__proto__\<close>, the
  prototype object itself), never \<open>undefined\<close>. These are the inherited names of the V8
  runtime that the code (arrow functions, template literals, \<open>const\<close>) needs.
\<close>

definition objectPrototypeKeys :: "string list" where
  "objectPrototypeKeys =
     [''constructor'', ''__defineGetter__'', ''__defineSetter__'', ''hasOwnProperty'',
      ''__lookupGetter__'', ''__lookupSetter__'', ''isPrototypeOf'', ''propertyIsEnumerable'',
      ''toString'', ''valueOf'', ''__proto__'', ''toLocaleString'']"

text \<open>
  What a property read on a dictionary object yields: one of its own string values, or the
  inherited member of that name.
\<close>

datatype jsval = Str string | Inherited string

text \<open>
  \<open>ToString\<close> as \<open>Array.prototype.join\<close> applies it: the inherited members are native
  functions, except \<open>__proto__\<close>, which reads as the prototype object.
\<close>

definition jsToString :: "jsval \<Rightarrow> string" where
  "jsToString v =
     (case v of
        Str s \<Rightarrow> s
      | Inherited k \<Rightarrow>
          (if k = ''__proto__'' then ''[object Object]''
           else ''function '' @ (if k = ''constructor'' then ''Object'' else k)
                @ ''() { [native code] }''))"

section \<open>Kitchen shorthand: \<open>abbreviate\<close> and \<open>formatKitchenShorthand\<close>\<close>

definition abbreviations :: "(string \<times> string) list" where
  "abbreviations =
     [(''egg'', ''E''), (''no egg'', ''NE''), (''croissant'', ''CR''), (''muffin'', ''MF''),
      (''bagel'', ''BG''), (''wrap'', ''W''), (''salad'', ''S''), (''salad bowl'', ''SB''),
      (''chicken'', ''CH''), (''no chicken'', ''NCH''), (''dressing'', ''D''),
      (''no dressing'', ''ND''), (''hot'', ''H''), (''iced'', ''I''), (''small'', ''SM''),
      (''medium'', ''MD''), (''large'', ''LG''), (''sugar'', ''SU''), (''no sugar'', ''NS'')]"

text \<open>\<open>abbreviations[key]\<close>: own entries first, then the prototype chain, else \<open>undefined\<close>.\<close>

definition abbreviationsGet :: "string \<Rightarrow> jsval option" where
  "abbreviationsGet k =
     (case map_of abbreviations k of
        Some v \<Rightarrow> Some (Str v)
      | None \<Rightarrow> if k \<in> set objectPrototypeKeys then Some (Inherited k) else None)"

text \<open>
  \<open>abbreviate(text)\<close>. Every value the lookup can yield is truthy (the own values are
  non-empty strings), so the test \<open>if (abbreviations[lowerText])\<close> succeeds exactly when the
  lookup finds something.
\<close>

definition abbreviate :: "string \<Rightarrow> jsval" where
  "abbreviate text =
     (if text = [] then Str []
      else
        let trimmed = trim text;
            lowerText = toLowerCase trimmed
        in case abbreviationsGet lowerText of
             Some v \<Rightarrow> v
           | None \<Rightarrow>
               if length trimmed \<le> 3 then Str (toUpperCase trimmed)
               else Str (toUpperCase (take 2 trimmed)))"

text \<open>
  \<open>part.match(/^(\d+)x\((.+)\)$/)\<close>: the two captures, when the part is one or more digits,
  then \<open>x(\<close>, then a non-empty body without line terminators, then the closing parenthesis
  at the very end.
\<close>

definition matchCountTuple :: "string \<Rightarrow> (string \<times> string) option" where
  "matchCountTuple part =
     (let count = takeWhile isDigit part;
          rest = dropWhile isDigit part
      in if count \<noteq> [] \<and> take 2 rest = ''x('' \<and> 4 \<le> length rest \<and> last rest = CHR '')''
            \<and> \<not> list_ex isLineTerminator (drop 2 rest)
         then Some (count, butlast (drop 2 rest))
         else None)"

definition shorthandPart :: "string \<Rightarrow> string" where
  "shorthandPart part =
     (case matchCountTuple part of
        None \<Rightarrow> part
      | Some (count, optionsList) \<Rightarrow>
          count @ ''x(''
          @ join '','' (map (\<lambda>opt. jsToString (abbreviate opt)) (splitCommaSpace [] optionsList))
          @ '')'')"

text \<open>
  The source's marker for an empty cell is the one-character string U+2014 (em dash); it
  lies outside the code-unit range of the model and is kept as its three UTF-8 bytes.
\<close>

definition emDash :: string where
  "emDash = [char_of (226 :: nat), char_of (128 :: nat), char_of (148 :: nat)]"

definition formatKitchenShorthand :: "string \<Rightarrow> string" where
  "formatKitchenShorthand optionsString =
     (if optionsString = [] then emDash
      else join '', '' (map shorthandPart (splitCommaSpace [] optionsString)))"

section \<open>Column schema: \<open>initializeOrdersHeaders\<close>\<close>

text \<open>
  A row of the Menu sheet, as the object the code builds from it by header name. Only the
  two fields the header builder reads are kept: \<open>item.name\<close> and \<open>item.options\<close> (the
  definition string, choices separated by \<open>/\<close> and groups by \<open>|\<close>). Both are strings; an empty
  cell reads as the empty string.
\<close>

record menu_item =
  menu_name :: string
  menu_options :: string

definition baseHeaders :: "string list" where
  "baseHeaders = [''Date'', ''Name'', ''Phone'', ''Delivery'', ''Email'']"

text \<open>
  The body of \<open>menuData.forEach\<close>: \<open>itemHeaders\<close> is the array the callback pushes onto.
  \<open>!item.name\<close> holds of the empty string; \<open>item.options && item.options.trim() !== ""\<close>
  holds of a string with a character that is not white space.
\<close>

definition pushItemHeaders :: "string list \<Rightarrow> menu_item \<Rightarrow> string list" where
  "pushItemHeaders itemHeaders item =
     (if menu_name item = [] then itemHeaders
      else
        let withItem = itemHeaders @ [menu_name item]
        in if menu_options item \<noteq> [] \<and> trim (menu_options item) \<noteq> []
           then withItem @ [menu_name item @ '' - options'']
           else withItem)"

text \<open>The header row \<open>allHeaders\<close> that \<open>initializeOrdersHeaders\<close> writes to the cleared sheet.\<close>

definition initializeOrdersHeaders :: "menu_item list \<Rightarrow> string list" where
  "initializeOrdersHeaders menuData = baseHeaders @ foldl pushItemHeaders [] menuData"

section \<open>Orders: payloads, cells and the row builder\<close>

text \<open>
  A cell of a sheet row or of the array \<open>rowData\<close>: a string, a non-negative integer, a
  \<open>Date\<close> (identified by the text its \<open>toString\<close> gives), or \<open>undefined\<close> (a hole of an
  array, or a read past its end).
\<close>

datatype cell = CStr string | CNum nat | CDate string | CUndefined

text \<open>
  The order payload as the front end's \<open>collectItems\<close> builds it. An option slot is a
  string or \<open>null\<close>; \<open>qty\<close>, \<open>instances\<close> and \<open>selectedOptions\<close> may be absent. The current
  shape carries \<open>instances\<close>, the legacy shape \<open>qty\<close> and \<open>selectedOptions\<close>.
\<close>

record item_instance =
  options :: "string option list"

record line_item =
  name :: string
  qty :: "int option"
  instances :: "item_instance list option"
  selectedOptions :: "string option list option"

record payload =
  payload_name :: cell
  phone :: cell
  delivery :: cell
  email :: cell
  items :: "line_item list"

datatype error = TypeError

text \<open>\<open>.filter(Boolean)\<close> on an array of option slots: \<open>null\<close> and the empty string go.\<close>

fun filterBoolean :: "string option list \<Rightarrow> string list" where
  "filterBoolean [] = []"
| "filterBoolean (None # slots) = filterBoolean slots"
| "filterBoolean (Some s # slots) = (if s = [] then filterBoolean slots else s # filterBoolean slots)"

text \<open>
  The object \<open>itemOptionsMap\<close>: its own properties in creation order, each an array of
  option arrays. A read \<open>itemOptionsMap[k]\<close> of a name that is not an own property finds the
  inherited member when \<open>k\<close> is one of \<^const>\<open>objectPrototypeKeys\<close> (truthy, and no array),
  and \<open>undefined\<close> otherwise.
\<close>

type_synonym item_options_map = "(string \<times> string list list) list"

text \<open>\<open>if (!itemOptionsMap[item.name]) itemOptionsMap[item.name] = [];\<close>\<close>

definition ensureKey :: "item_options_map \<Rightarrow> string \<Rightarrow> item_options_map" where
  "ensureKey m k =
     (case map_of m k of
        Some _ \<Rightarrow> m
      | None \<Rightarrow> if k \<in> set objectPrototypeKeys then m else m @ [(k, [])])"

text \<open>
  \<open>itemOptionsMap[item.name].push(instanceOptions)\<close>: on an own property the array grows;
  on an inherited member (or \<open>undefined\<close>) there is no \<open>push\<close> to call and a \<open>TypeError\<close> is
  thrown.
\<close>

definition pushInstance :: "item_options_map \<Rightarrow> string \<Rightarrow> string list \<Rightarrow> error + item_options_map" where
  "pushInstance m k instanceOptions =
     (case map_of m k of
        None \<Rightarrow> Inl TypeError
      | Some _ \<Rightarrow> Inr (map (\<lambda>(k', v). if k' = k then (k', v @ [instanceOptions]) else (k', v)) m))"

fun pushInstances :: "item_options_map \<Rightarrow> string \<Rightarrow> string list list \<Rightarrow> error + item_options_map" where
  "pushInstances m k [] = Inr m"
| "pushInstances m k (instanceOptions # rest) =
     (case pushInstance m k instanceOptions of
        Inl e \<Rightarrow> Inl e
      | Inr m' \<Rightarrow> pushInstances m' k rest)"

text \<open>
  The option arrays one line item pushes, in order: one per instance in the current shape
  (\<open>item.instances && item.instances.length > 0\<close>), else \<open>item.qty || 0\<close> copies of the
  filtered \<open>selectedOptions\<close> (none when the quantity is not positive).
\<close>

definition legacyInstanceOptions :: "line_item \<Rightarrow> string list list" where
  "legacyInstanceOptions item =
     replicate (nat (case qty item of Some q \<Rightarrow> q | None \<Rightarrow> 0))
       (case selectedOptions item of Some slots \<Rightarrow> filterBoolean slots | None \<Rightarrow> [])"

definition itemInstanceOptions :: "line_item \<Rightarrow> string list list" where
  "itemInstanceOptions item =
     (case instances item of
        Some insts \<Rightarrow>
          if 0 < length insts then map (\<lambda>inst. filterBoolean (options inst)) insts
          else legacyInstanceOptions item
      | None \<Rightarrow> legacyInstanceOptions item)"

text \<open>The body of \<open>payload.items.forEach\<close>, and the loop itself.\<close>

definition collectItem :: "item_options_map \<Rightarrow> line_item \<Rightarrow> error + item_options_map" where
  "collectItem m item =
     pushInstances (ensureKey m (name item)) (name item) (itemInstanceOptions item)"

fun collectItems :: "item_options_map \<Rightarrow> line_item list \<Rightarrow> error + item_options_map" where
  "collectItems m [] = Inr m"
| "collectItems m (item # rest) =
     (case collectItem m item of
        Inl e \<Rightarrow> Inl e
      | Inr m' \<Rightarrow> collectItems m' rest)"

text \<open>
  \<open>Object.keys\<close> lists the array-index keys first (canonical decimal strings below
  \<open>2^32 - 1\<close>), in ascending numeric order, then the other keys in creation order.
\<close>

definition digitsValue :: "string \<Rightarrow> int" where
  "digitsValue s = foldl (\<lambda>a c. 10 * a + (of_char c - 48)) 0 s"

definition arrayIndex :: "string \<Rightarrow> int option" where
  "arrayIndex s =
     (if s \<noteq> [] \<and> list_all isDigit s \<and> (s = ''0'' \<or> hd s \<noteq> CHR ''0'')
         \<and> digitsValue s < 4294967295
      then Some (digitsValue s) else None)"

definition objectEntries :: "(string \<times> 'v) list \<Rightarrow> (string \<times> 'v) list" where
  "objectEntries m =
     sort_key (\<lambda>(k, v). the (arrayIndex k)) (filter (\<lambda>(k, v). arrayIndex k \<noteq> None) m)
     @ filter (\<lambda>(k, v). arrayIndex k = None) m"

text \<open>
  The options cell of one item:
  \<open>instances.map(opts => opts.length > 0 ? `(${opts.join(", ")})` : "").filter(Boolean).join(", ")\<close>
\<close>

definition renderTuple :: "string list \<Rightarrow> string" where
  "renderTuple opts = (if 0 < length opts then ''('' @ join '', '' opts @ '')'' else [])"

definition encodeOptions :: "string list list \<Rightarrow> string" where
  "encodeOptions insts = join '', '' (filter (\<lambda>s. s \<noteq> []) (map renderTuple insts))"

text \<open>\<open>Array.prototype.indexOf\<close>, with \<open>None\<close> for \<open>-1\<close>.\<close>

fun indexOf :: "'a list \<Rightarrow> 'a \<Rightarrow> nat option" where
  "indexOf [] x = None"
| "indexOf (y # ys) x = (if y = x then Some 0 else map_option Suc (indexOf ys x))"

text \<open>\<open>a[i] = v\<close>: an assignment past the end extends the array, leaving holes.\<close>

definition setAt :: "cell list \<Rightarrow> nat \<Rightarrow> cell \<Rightarrow> cell list" where
  "setAt a i v =
     (if i < length a then a[i := v] else a @ replicate (i - length a) CUndefined @ [v])"

text \<open>
  The body of \<open>Object.keys(itemOptionsMap).forEach\<close> for the key \<open>itemName\<close> with its array
  \<open>instances\<close>: the count into the item's column, the encoded options into the column
  \<open><itemName> - options\<close>, each only when \<open>headers\<close> has that column.
\<close>

fun writeItem :: "string list \<Rightarrow> cell list \<Rightarrow> string \<times> string list list \<Rightarrow> cell list" where
  "writeItem headers rowData (itemName, insts) =
     (let rowData1 =
            (case indexOf headers itemName of
               None \<Rightarrow> rowData
             | Some itemColIndex \<Rightarrow> setAt rowData itemColIndex (CNum (length insts)))
      in (case indexOf headers (itemName @ '' - options'') of
            None \<Rightarrow> rowData1
          | Some optionsColIndex \<Rightarrow> setAt rowData1 optionsColIndex (CStr (encodeOptions insts))))"

text \<open>
  The row that \<open>writeToOrders\<close> appends for a payload and that \<open>buildOrdersFromJson\<close>
  rebuilds with the same statements ("Replicate writeToOrders logic exactly"); \<open>date\<close> is
  \<open>new Date()\<close> in the first and the journal's stored date in the second.
\<close>

definition baseRow :: "string list \<Rightarrow> cell \<Rightarrow> payload \<Rightarrow> cell list" where
  "baseRow headers date p =
     setAt (setAt (setAt (setAt (setAt (replicate (length headers) (CStr [])) 0 date)
       1 (payload_name p)) 2 (phone p)) 3 (delivery p)) 4 (email p)"

definition orderRow :: "string list \<Rightarrow> cell \<Rightarrow> payload \<Rightarrow> error + cell list" where
  "orderRow headers date p =
     (case collectItems [] (items p) of
        Inl e \<Rightarrow> Inl e
      | Inr itemOptionsMap \<Rightarrow>
          Inr (foldl (writeItem headers) (baseRow headers date p) (objectEntries itemOptionsMap)))"

section \<open>Totals: \<open>aggregateOptions\<close> and \<open>updateTotalsRow\<close>\<close>

text \<open>
  \<open>optionString.split(/\),\s*\(/)\<close>. \<open>afterSeparator s\<close> is what follows a match of the
  regular expression at the very start of \<open>s\<close>: a closing parenthesis, a comma, any run of
  white space (the run is maximal, as an opening parenthesis is no white space) and an
  opening parenthesis. \<open>splitTuples\<close> scans from the left; \<open>acc\<close> is the piece being read.
\<close>

fun afterSeparator :: "string \<Rightarrow> string option" where
  "afterSeparator (c # d # r) =
     (if c = CHR '')'' \<and> d = CHR '','' then
        (case dropWhile isSpace r of
           [] \<Rightarrow> None
         | e # r' \<Rightarrow> if e = CHR ''('' then Some r' else None)
      else None)"
| "afterSeparator _ = None"

function splitTuples :: "string \<Rightarrow> string \<Rightarrow> string list" where
  "splitTuples acc [] = [acc]"
| "splitTuples acc (c # cs) =
     (case afterSeparator (c # cs) of
        Some r \<Rightarrow> acc # splitTuples [] r
      | None \<Rightarrow> splitTuples (acc @ [c]) cs)"
  by pat_completeness auto
termination
proof (relation "measure (\<lambda>(acc, s). length s)")
  show "wf (measure (\<lambda>(acc :: string, s :: string). length s))"
    by simp
next
  fix acc :: string and c cs r
  assume match: "afterSeparator (c # cs) = Some r"
  then obtain d t where cs: "cs = d # t" and rest: "dropWhile isSpace t = CHR ''('' # r"
    by (cases cs) (auto split: if_splits list.splits)
  have "length (dropWhile isSpace t) \<le> length t"
    by (rule length_dropWhile_le)
  with cs rest show "(([], r), acc, c # cs) \<in> measure (\<lambda>(acc, s). length s)"
    by simp
next
  fix acc :: string and c cs
  show "((acc @ [c], cs), acc, c # cs) \<in> measure (\<lambda>(acc, s). length s)"
    by simp
qed

definition startsWithParen :: "string \<Rightarrow> bool" where
  "startsWithParen s = (case s of [] \<Rightarrow> False | c # _ \<Rightarrow> c = CHR ''('')"

definition endsWithParen :: "string \<Rightarrow> bool" where
  "endsWithParen s = (s \<noteq> [] \<and> last s = CHR '')'')"

text \<open>
  The body of \<open>optionTuples.forEach((tuple, index) => ...)\<close> up to the count: the tuple
  string that is counted, or \<open>None\<close> when the trimmed piece is empty and skipped; \<open>n\<close> is
  \<open>optionTuples.length\<close>.
\<close>

definition restoreTuple :: "nat \<Rightarrow> nat \<Rightarrow> string \<Rightarrow> string option" where
  "restoreTuple n index tuple =
     (let trimmed = trim tuple
      in if trimmed = [] then None
         else
           let t1 = (if 0 < index \<and> \<not> startsWithParen trimmed then CHR ''('' # trimmed else trimmed);
               t2 = (if index + 1 < n \<and> \<not> endsWithParen t1 then t1 @ '')'' else t1);
               t3 = (if \<not> startsWithParen t2 then CHR ''('' # t2 else t2);
               t4 = (if \<not> endsWithParen t3 then t3 @ '')'' else t3)
           in Some t4)"

text \<open>Truthiness and \<open>toString\<close> of a cell value.\<close>

definition truthy :: "cell \<Rightarrow> bool" where
  "truthy v = (case v of CStr s \<Rightarrow> s \<noteq> [] | CNum k \<Rightarrow> k \<noteq> 0 | CDate d \<Rightarrow> True | CUndefined \<Rightarrow> False)"

definition cellToString :: "cell \<Rightarrow> string" where
  "cellToString v = (case v of CStr s \<Rightarrow> s | CNum k \<Rightarrow> showNat k | CDate d \<Rightarrow> d | CUndefined \<Rightarrow> ''undefined'')"

text \<open>
  The tuples one cell contributes to the count, in order: none for a falsy cell
  (\<open>if (!optionsCell || optionsCell === "") return\<close>).
\<close>

definition decodeCell :: "cell \<Rightarrow> string list" where
  "decodeCell optionsCell =
     (if \<not> truthy optionsCell then []
      else
        let optionTuples = splitTuples [] (trim (cellToString optionsCell))
        in List.map_filter (\<lambda>(index, tuple). restoreTuple (length optionTuples) index tuple)
             (zip [0 ..< length optionTuples] optionTuples))"

text \<open>\<open>row[columnIndex]\<close>: \<open>undefined\<close> past the end of the row.\<close>

definition cellAt :: "cell list \<Rightarrow> nat \<Rightarrow> cell" where
  "cellAt row i = (if i < length row then row ! i else CUndefined)"

text \<open>
  The object \<open>optionCounts\<close>, own properties in creation order, and
  \<open>optionCounts[trimmed] = (optionCounts[trimmed] || 0) + 1\<close>. Every counted string begins
  with an opening parenthesis (lemma \<open>decodeCell_parens\<close> below), so it is neither an
  inherited name nor an array index, and \<open>Object.entries\<close> lists the keys in creation order.
\<close>

definition countTuple :: "(string \<times> nat) list \<Rightarrow> string \<Rightarrow> (string \<times> nat) list" where
  "countTuple optionCounts t =
     (case map_of optionCounts t of
        None \<Rightarrow> optionCounts @ [(t, 1)]
      | Some _ \<Rightarrow> map (\<lambda>(k, c). if k = t then (k, c + 1) else (k, c)) optionCounts)"

definition countRows :: "cell list list \<Rightarrow> nat \<Rightarrow> (string \<times> nat) list" where
  "countRows dataRows columnIndex =
     foldl (\<lambda>optionCounts row. foldl countTuple optionCounts (decodeCell (cellAt row columnIndex)))
       [] dataRows"

text \<open>
  \<open>.sort((a, b) => b[1] - a[1])\<close>: a stable sort (as \<open>Array.prototype.sort\<close> is) under the
  comparator; an element goes before the first one it does not have to follow.
\<close>

fun insertByCount :: "(string \<times> nat) \<Rightarrow> (string \<times> nat) list \<Rightarrow> (string \<times> nat) list" where
  "insertByCount a [] = [a]"
| "insertByCount a (b # bs) =
     (if int (snd b) - int (snd a) \<le> 0 then a # b # bs else b # insertByCount a bs)"

definition sortByCount :: "(string \<times> nat) list \<Rightarrow> (string \<times> nat) list" where
  "sortByCount entries = foldr insertByCount entries []"

definition renderCount :: "string \<times> nat \<Rightarrow> string" where
  "renderCount e = (case e of (tuple, count) \<Rightarrow> showNat count @ ''x'' @ tuple)"

definition aggregateOptions :: "cell list list \<Rightarrow> nat \<Rightarrow> string" where
  "aggregateOptions dataRows columnIndex =
     join '', '' (map renderCount (sortByCount (countRows dataRows columnIndex)))"

text \<open>
  The Orders sheet, as far as the code reads and writes it: the header row as
  \<open>getRange(1, 1, 1, getLastColumn()).getValues()[0]\<close> gives it (strings), and the rows below
  it in order, data rows and totals rows alike. \<open>appendRow\<close> adds a row at the end. The
  header row is a field of its own: no row below it is taken to reach past its last cell
  (a wider row would lengthen what \<open>getLastColumn()\<close> makes the code read as headers).
\<close>

record orders_sheet =
  sheet_headers :: "string list"
  sheet_rows :: "cell list list"

text \<open>\<open>header.includes(" - options")\<close>\<close>

fun includesStr :: "string \<Rightarrow> string \<Rightarrow> bool" where
  "includesStr [] sub = (sub = [])"
| "includesStr (c # cs) sub = (take (length sub) (c # cs) = sub \<or> includesStr cs sub)"

text \<open>\<open>columnToLetter\<close>: the \<open>while (column > 0)\<close> loop with its variable \<open>letter\<close>.\<close>

function columnToLetterLoop :: "nat \<Rightarrow> string \<Rightarrow> string" where
  "columnToLetterLoop column letter =
     (if 0 < column then
        let temp = (column - 1) mod 26
        in columnToLetterLoop ((column - temp - 1) div 26) (char_of (temp + 65) # letter)
      else letter)"
  by pat_completeness auto
termination
  by (relation "measure fst") (auto simp: Let_def intro: le_less_trans[OF div_le_dividend])

declare columnToLetterLoop.simps [simp del]

definition columnToLetter :: "nat \<Rightarrow> string" where
  "columnToLetter column = columnToLetterLoop column []"

text \<open>
  \<open>updateTotalsRow\<close>: every row whose first cell is the string \<open>TOTALS\<close> is deleted; the new
  totals row has \<open>TOTALS\<close> and four empty cells, then per column the aggregated options for
  a header that includes \<open> - options\<close> and a \<open>SUM\<close> formula over the data rows otherwise.
\<close>

definition isTotalsRow :: "cell list \<Rightarrow> bool" where
  "isTotalsRow row = (cellAt row 0 = CStr ''TOTALS'')"

definition totalsCell :: "cell list list \<Rightarrow> nat \<Rightarrow> nat \<Rightarrow> string \<Rightarrow> cell" where
  "totalsCell dataRange currentLastRow idx header =
     (if idx < 5 then (if idx = 0 then CStr ''TOTALS'' else CStr [])
      else if includesStr header '' - options'' then CStr (aggregateOptions dataRange idx)
      else
        let colLetter = columnToLetter (idx + 1)
        in CStr (''=SUM('' @ colLetter @ ''2:'' @ colLetter @ showNat currentLastRow @ '')''))"

definition updateTotalsRow :: "orders_sheet \<Rightarrow> orders_sheet" where
  "updateTotalsRow sheet =
     (let headers = sheet_headers sheet;
          dataRange = filter (\<lambda>row. \<not> isTotalsRow row) (sheet_rows sheet);
          currentLastRow = length dataRange + 1;
          totalsData = map (\<lambda>(idx, header). totalsCell dataRange currentLastRow idx header)
                         (zip [0 ..< length headers] headers)
      in sheet\<lparr>sheet_rows := dataRange @ [totalsData]\<rparr>)"

text \<open>
  \<open>writeToOrders\<close>: the live path. \<open>now\<close> is the value of \<open>new Date()\<close>; a \<open>TypeError\<close> of
  the row builder leaves the function before anything is appended.
\<close>

definition writeToOrders :: "orders_sheet \<Rightarrow> cell \<Rightarrow> payload \<Rightarrow> error + orders_sheet" where
  "writeToOrders sheet now p =
     (case orderRow (sheet_headers sheet) now p of
        Inl e \<Rightarrow> Inl e
      | Inr rowData \<Rightarrow>
          Inr (updateTotalsRow (sheet\<lparr>sheet_rows := sheet_rows sheet @ [rowData]\<rparr>)))"

section \<open>Rebuild from the journal: \<open>buildOrdersFromJson\<close>\<close>

text \<open>
  A row of the sheet \<open>orders_json\<close>: the cells of columns A to E, and column F (the items
  JSON) by what the replay makes of it: \<open>Blank\<close> when the guard
  \<open>!jsonStr || jsonStr.toString().trim() === ""\<close> skips it, \<open>Unparsable\<close> when \<open>JSON.parse\<close>
  throws, and otherwise the array of line items that \<open>JSON.parse\<close> yields (the journal holds
  what \<open>doPost\<close> stored, \<open>JSON.stringify(payload.items)\<close>).
\<close>

datatype items_cell = Blank | Unparsable | Items "line_item list"

record journal_row =
  col_date :: cell
  col_name :: cell
  col_phone :: cell
  col_delivery :: cell
  col_email :: cell
  col_items :: items_cell

record journal_sheet =
  journal_lastColumn :: nat
  journal_rows :: "journal_row list"

text \<open>The alerts the function can end with; \<open>Replayed k\<close> reports \<open>k\<close> orders replayed.\<close>

datatype alert =
  OrdersJsonNotFound | OrdersNotFound | TooFewColumns | NoDataOrMissingColumns | NoDataRows
  | Replayed nat

text \<open>
  The body of the \<open>try\<close> for one journal row: the row that is appended, or \<open>None\<close> when the
  row is skipped (blank cell, \<open>JSON.parse\<close> throws, or the row builder throws: the \<open>catch\<close>
  takes every exception).
\<close>

definition replayRow :: "string list \<Rightarrow> journal_row \<Rightarrow> cell list option" where
  "replayRow headers row =
     (case col_items row of
        Blank \<Rightarrow> None
      | Unparsable \<Rightarrow> None
      | Items its \<Rightarrow>
          (case orderRow headers (col_date row)
                  \<lparr>payload_name = col_name row, phone = col_phone row,
                   delivery = col_delivery row, email = col_email row, items = its\<rparr> of
             Inl e \<Rightarrow> None
           | Inr rowData \<Rightarrow> Some rowData))"

text \<open>The body of \<open>dataRows.forEach\<close> on the sheet and \<open>replayedCount\<close>.\<close>

definition replayStep :: "orders_sheet \<times> nat \<Rightarrow> journal_row \<Rightarrow> orders_sheet \<times> nat" where
  "replayStep state row =
     (case state of (sheet, replayedCount) \<Rightarrow>
        (case replayRow (sheet_headers sheet) row of
           None \<Rightarrow> (sheet, replayedCount)
         | Some rowData \<Rightarrow> (sheet\<lparr>sheet_rows := sheet_rows sheet @ [rowData]\<rparr>, replayedCount + 1)))"

definition hasHeaders :: "journal_row list \<Rightarrow> bool" where
  "hasHeaders rows =
     (case rows of
        [] \<Rightarrow> False
      | first # _ \<Rightarrow> (case col_date first of CStr s \<Rightarrow> toLowerCase s = ''date'' | _ \<Rightarrow> False))"

text \<open>
  \<open>buildOrdersFromJson\<close>, from the two sheets (\<open>None\<close>: the sheet does not exist) to the alert
  shown and the Orders sheet afterwards.
\<close>

definition buildOrdersFromJson ::
  "journal_sheet option \<Rightarrow> orders_sheet option \<Rightarrow> alert \<times> orders_sheet option" where
  "buildOrdersFromJson ordersJsonSheet ordersSheet =
     (case ordersJsonSheet of
        None \<Rightarrow> (OrdersJsonNotFound, ordersSheet)
      | Some journal \<Rightarrow>
          (case ordersSheet of
             None \<Rightarrow> (OrdersNotFound, None)
           | Some sheet \<Rightarrow>
               if length (sheet_headers sheet) < 6 then (TooFewColumns, Some sheet)
               else if length (journal_rows journal) < 1 \<or> journal_lastColumn journal < 6
                 then (NoDataOrMissingColumns, Some sheet)
               else if hasHeaders (journal_rows journal) \<and> length (journal_rows journal) < 2
                 then (NoDataRows, Some sheet)
               else
                 let dataRows = (if hasHeaders (journal_rows journal)
                                 then tl (journal_rows journal) else journal_rows journal);
                     cleared = sheet\<lparr>sheet_rows := []\<rparr>;
                     (replayed, replayedCount) = foldl replayStep (cleared, 0) dataRows;
                     final = (if 0 < replayedCount then updateTotalsRow replayed else replayed)
                 in (Replayed replayedCount, Some final)))"

section \<open>Notions for the statements and their proofs\<close>



text \<open>
  An option text that the decoder's split cannot confuse with the tuple syntax: no closing
  parenthesis in it, no opening parenthesis at its start, no white space at either end.
\<close>

definition plainOption :: "string \<Rightarrow> bool" where
  "plainOption opt =
     (opt \<noteq> [] \<and> \<not> isSpace (hd opt) \<and> \<not> isSpace (last opt) \<and> hd opt \<noteq> CHR ''(''
      \<and> CHR '')'' \<notin> set opt)"

text \<open>
  For the proof: the encoded cell of the tuple bodies \<open>bs\<close> without its first character,
  and the pieces the split cuts it into.
\<close>

fun tailEnc :: "string list \<Rightarrow> string" where
  "tailEnc [] = []"
| "tailEnc [b] = b @ '')''"
| "tailEnc (b # b' # bs) = b @ ''), ('' @ tailEnc (b' # bs)"

fun pieces :: "string \<Rightarrow> string list \<Rightarrow> string list" where
  "pieces acc [] = [acc]"
| "pieces acc [b] = [acc @ b @ '')'']"
| "pieces acc (b # b' # bs) = (acc @ b) # pieces [] (b' # bs)"

text \<open>
  For the statements: all option arrays that the line items named \<open>n\<close> push, in the order
  of the line items in the payload and of the instances in each.
\<close>

definition instancesOf :: "string \<Rightarrow> line_item list \<Rightarrow> string list list" where
  "instancesOf n its = concat (map itemInstanceOptions (filter (\<lambda>item. name item = n) its))"

text \<open>For the proofs: the map with \<open>os\<close> appended to the array of the key \<open>k\<close>.\<close>

definition appendTo :: "item_options_map \<Rightarrow> string \<Rightarrow> string list list \<Rightarrow> item_options_map" where
  "appendTo m k os = map (\<lambda>(k', v). if k' = k then (k', v @ os) else (k', v)) m"



text \<open>A header row and customer fields for the examples.\<close>

definition exampleHeaders :: "string list" where
  "exampleHeaders = [''Date'', ''Name'', ''Phone'', ''Delivery'', ''Email'', ''wrap'', ''wrap - options'', ''tea'']"

definition examplePayload :: "line_item list \<Rightarrow> payload" where
  "examplePayload its =
     \<lparr>payload_name = CStr ''Ann'', phone = CStr ''555'', delivery = CStr ''pickup'',
      email = CStr ''ann@example.org'', items = its\<rparr>"

text \<open>
  For the proofs, the two halves of \<open>buildOrdersFromJson\<close> on existing sheets: the guards
  that end it with an alert and the sheet untouched, and the replay, with the loop solved:
  the data rows are cleared and the rows that \<open>replayRow\<close> yields are appended in journal
  order, \<open>replayedCount\<close> is their number.
\<close>

definition rebuilt :: "journal_sheet \<Rightarrow> orders_sheet \<Rightarrow> alert \<times> orders_sheet option" where
  "rebuilt journal sheet =
     (let dataRows = (if hasHeaders (journal_rows journal)
                                 then tl (journal_rows journal) else journal_rows journal);
          newRows = List.map_filter (replayRow (sheet_headers sheet)) dataRows;
          replayed = sheet\<lparr>sheet_rows := newRows\<rparr>
      in (Replayed (length newRows),
          Some (if 0 < length newRows then updateTotalsRow replayed else replayed)))"

definition refused :: "journal_sheet \<Rightarrow> orders_sheet \<Rightarrow> alert option" where
  "refused journal sheet =
     (if length (sheet_headers sheet) < 6 then Some TooFewColumns
      else if length (journal_rows journal) < 1 \<or> journal_lastColumn journal < 6
        then Some NoDataOrMissingColumns
      else if hasHeaders (journal_rows journal) \<and> length (journal_rows journal) < 2
        then Some NoDataRows
      else None)"

text \<open>Journal rows for the examples.\<close>

definition exampleEntry :: "string \<Rightarrow> items_cell \<Rightarrow> journal_row" where
  "exampleEntry d its =
     \<lparr>col_date = CDate d, col_name = CStr ''Ann'', col_phone = CStr ''555'',
      col_delivery = CStr ''pickup'', col_email = CStr ''ann@example.org'', col_items = its\<rparr>"

definition wrapOrder :: "string \<Rightarrow> items_cell" where
  "wrapOrder opt =
     Items [\<lparr>name = ''wrap'', qty = Some 1, instances = Some [\<lparr>options = [Some opt]\<rparr>],
             selectedOptions = None\<rparr>]"

section \<open>Properties of the kitchen shorthand\<close>

text \<open>
  Outside the inherited names, \<open>abbreviate\<close> is the dictionary lookup with the length-based
  fallback.
\<close>

lemma abbreviate_own_or_fallback:
  assumes "toLowerCase (trim text) \<notin> set objectPrototypeKeys"
  shows "abbreviate text =
           (case map_of abbreviations (toLowerCase (trim text)) of
              Some v \<Rightarrow> Str v
            | None \<Rightarrow>
                if length (trim text) \<le> 3 then Str (toUpperCase (trim text))
                else Str (toUpperCase (take 2 (trim text))))"
proof (cases "text = []")
  case True
  have "map_of abbreviations [] = None"
    by (simp add: abbreviations_def)
  with True show ?thesis
    by (simp add: abbreviate_def trim_def toLowerCase_def toUpperCase_def)
next
  case False
  with assms show ?thesis
    by (simp add: abbreviate_def abbreviationsGet_def Let_def split: option.splits)
qed

text \<open>
  C8. The abbreviation function is to return the dictionary code for a dictionary key and
  otherwise the length-based fallback. At the option text \<open>constructor\<close>, which is no key of
  the dictionary and is longer than three characters, the lookup \<open>abbreviations[lowerText]\<close>
  finds the inherited member of that name: the function returns it (no string at all), and
  what the caller joins into the shorthand is not the fallback \<open>CO\<close>.
\<close>

theorem abbreviate_constructor:
  "abbreviate ''constructor'' = Inherited ''constructor''
   \<and> map_of abbreviations (toLowerCase (trim ''constructor'')) = None
   \<and> toUpperCase (take 2 (trim ''constructor'')) = ''CO''
   \<and> jsToString (abbreviate ''constructor'') = ''function Object() { [native code] }''"
  by code_simp

text \<open>
  C2. The formatter is to turn \<open>2x(egg, croissant), 1x(no egg, muffin)\<close> into
  \<open>2x(E,CR), 1x(NE,MF)\<close>. The code splits the whole cell on comma-space first, which also
  cuts every tuple with two or more options in the middle; none of the four pieces has the
  shape \<open>digits x ( ... )\<close>, each is passed through, and the cell comes back unchanged.
\<close>

theorem formatKitchenShorthand_two_options:
  "splitCommaSpace [] ''2x(egg, croissant), 1x(no egg, muffin)''
     = [''2x(egg'', ''croissant)'', ''1x(no egg'', ''muffin)'']
   \<and> map matchCountTuple [''2x(egg'', ''croissant)'', ''1x(no egg'', ''muffin)'']
     = [None, None, None, None]
   \<and> formatKitchenShorthand ''2x(egg, croissant), 1x(no egg, muffin)''
     = ''2x(egg, croissant), 1x(no egg, muffin)''"
  by code_simp

text \<open>With one option in every tuple the segments survive the split and are abbreviated.\<close>

lemma formatKitchenShorthand_single_options:
  "formatKitchenShorthand ''4x(Wrap), 1x(Salad)'' = ''4x(W), 1x(S)''"
  by code_simp

section \<open>Properties of the column schema\<close>

lemma trim_Nil: "trim [] = []"
  by (simp add: trim_def)

lemma foldl_pushItemHeaders:
  "foldl pushItemHeaders acc menuData =
     acc @ concat (map (\<lambda>item.
       if menu_name item = [] then []
       else if trim (menu_options item) = [] then [menu_name item]
       else [menu_name item, menu_name item @ '' - options'']) menuData)"
proof (induction menuData arbitrary: acc)
  case Nil
  show ?case by simp
next
  case (Cons item rest)
  have step: "pushItemHeaders acc item =
      acc @ (if menu_name item = [] then []
             else if trim (menu_options item) = [] then [menu_name item]
             else [menu_name item, menu_name item @ '' - options''])"
    by (auto simp: pushItemHeaders_def Let_def trim_Nil)
  show ?case
    by (simp only: foldl_Cons Cons.IH step list.map concat.simps append_assoc)
qed

text \<open>
  C6. The header row is the five base columns followed, for each menu item in catalog order
  whose name is not empty, by the item's count column and, exactly when its option
  definition is not empty (the code's test: it has a character that is not white space),
  the column \<open><name> - options\<close> right after it; an item with an empty name adds nothing. The
  row is given as a function of the catalog alone, so equal catalogs give equal rows.
\<close>

theorem initializeOrdersHeaders_columns:
  "initializeOrdersHeaders catalog =
     [''Date'', ''Name'', ''Phone'', ''Delivery'', ''Email'']
     @ concat (map (\<lambda>item.
         if menu_name item = [] then []
         else if trim (menu_options item) = [] then [menu_name item]
         else [menu_name item, menu_name item @ '' - options'']) catalog)"
  by (simp add: initializeOrdersHeaders_def baseHeaders_def foldl_pushItemHeaders)

section \<open>Properties of the aggregator and the codec\<close>

subsection \<open>The counted strings are parenthesised\<close>

text \<open>
  Every string the aggregator counts begins with an opening and ends with a closing
  parenthesis; so none is an inherited property name or an array index, which is why
  \<open>optionCounts\<close> is modelled by its own properties in creation order.
\<close>

lemma restoreTuple_parens:
  assumes "restoreTuple n index tuple = Some t"
  shows "startsWithParen t \<and> endsWithParen t"
proof -
  define t1 where "t1 = (if 0 < index \<and> \<not> startsWithParen (trim tuple) then CHR ''('' # trim tuple else trim tuple)"
  define t2 where "t2 = (if index + 1 < n \<and> \<not> endsWithParen t1 then t1 @ '')'' else t1)"
  define t3 where "t3 = (if \<not> startsWithParen t2 then CHR ''('' # t2 else t2)"
  have ne: "trim tuple \<noteq> []"
  proof
    assume "trim tuple = []"
    with assms show False by (simp add: restoreTuple_def)
  qed
  have "restoreTuple n index tuple = Some (if \<not> endsWithParen t3 then t3 @ '')'' else t3)"
    by (simp only: restoreTuple_def Let_def t1_def t2_def t3_def ne if_False)
  with assms have t: "t = (if \<not> endsWithParen t3 then t3 @ '')'' else t3)"
    by simp
  have s3: "startsWithParen t3"
    by (simp add: t3_def startsWithParen_def)
  then have "startsWithParen (t3 @ '')'')"
    by (cases t3) (simp_all add: startsWithParen_def)
  with s3 have "startsWithParen t" by (simp add: t)
  moreover have "endsWithParen t" by (simp add: t endsWithParen_def)
  ultimately show ?thesis ..
qed

lemma decodeCell_parens:
  assumes "t \<in> set (decodeCell optionsCell)"
  shows "startsWithParen t \<and> endsWithParen t"
proof -
  from assms obtain n index tuple where "restoreTuple n index tuple = Some t"
    by (auto simp: decodeCell_def Let_def List.map_filter_def split: if_splits)
  then show ?thesis by (rule restoreTuple_parens)
qed

lemma parenthesised_plain_key:
  assumes "startsWithParen t"
  shows "t \<notin> set objectPrototypeKeys \<and> arrayIndex t = None"
proof -
  from assms obtain r where t: "t = CHR ''('' # r"
    by (cases t) (simp_all add: startsWithParen_def)
  have "\<not> isDigit (CHR ''('')" by (simp add: isDigit_def)
  then have "arrayIndex t = None" by (simp add: arrayIndex_def t)
  moreover have "t \<notin> set objectPrototypeKeys" by (simp add: objectPrototypeKeys_def t)
  ultimately show ?thesis by simp
qed

subsection \<open>Ranking of the counted tuples\<close>




lemma fst_bump: "map fst (map (\<lambda>(k, c). if k = t then (k, c + (1::nat)) else (k, c)) m) = map fst m"
  by (induction m) auto









lemma length_insertByCount: "length (insertByCount a bs) = Suc (length bs)"
  by (induction bs) auto

lemma length_sortByCount: "length (sortByCount es) = length es"
  unfolding sortByCount_def by (induction es) (simp_all add: length_insertByCount)










subsection \<open>Round trip of the option tuple codec\<close>

lemma isSpace_simps [simp]: "\<not> isSpace (CHR ''('')" "\<not> isSpace (CHR '')'')" "isSpace (CHR '' '')" "\<not> isSpace (CHR '','')"
  by (simp_all add: isSpace_def)

lemma trim_id: "s \<noteq> [] \<Longrightarrow> \<not> isSpace (hd s) \<Longrightarrow> \<not> isSpace (last s) \<Longrightarrow> trim s = s"
proof -
  assume a: "s \<noteq> []" "\<not> isSpace (hd s)" "\<not> isSpace (last s)"
  then have 1: "dropWhile isSpace s = s" by (cases s) simp_all
  from a have "rev s \<noteq> []" "\<not> isSpace (hd (rev s))" by (simp_all add: hd_rev)
  then have "dropWhile isSpace (rev s) = rev s" by (cases "rev s") simp_all
  with 1 show ?thesis by (simp add: trim_def)
qed

lemma join_wrap: "bs \<noteq> [] \<Longrightarrow> join '', '' (map (\<lambda>b. ''('' @ b @ '')'') bs) = CHR ''('' # tailEnc bs"
  by (induction bs rule: tailEnc.induct) simp_all

lemma splitTuples_plain: "CHR '')'' \<notin> set b \<Longrightarrow> splitTuples acc (b @ rest) = splitTuples (acc @ b) rest"
proof (induction b arbitrary: acc)
  case Nil
  show ?case by simp
next
  case (Cons c b)
  then have "afterSeparator (c # b @ rest) = None"
    by (cases "b @ rest") auto
  with Cons show ?case by simp
qed

lemma splitTuples_separator: "splitTuples acc (''), ('' @ rest) = acc # splitTuples [] rest"
  by simp

lemma splitTuples_close: "splitTuples acc '')'' = [acc @ '')'']"
  by simp

lemma splitTuples_tailEnc:
  "bs \<noteq> [] \<Longrightarrow> \<forall>b \<in> set bs. CHR '')'' \<notin> set b \<Longrightarrow> splitTuples acc (tailEnc bs) = pieces acc bs"
proof (induction bs arbitrary: acc rule: tailEnc.induct)
  case 1
  then show ?case by simp
next
  case (2 b)
  then show ?case
    using splitTuples_plain[of b acc "'')''"] by simp
next
  case (3 b b' bs)
  have "splitTuples acc (b @ ''), ('' @ tailEnc (b' # bs)) = splitTuples (acc @ b) (''), ('' @ tailEnc (b' # bs))"
    using 3 by (intro splitTuples_plain) simp
  also have "\<dots> = (acc @ b) # splitTuples [] (tailEnc (b' # bs))"
    by (rule splitTuples_separator)
  finally show ?case using 3 by simp
qed

lemma startsWithParen_Cons [simp]: "startsWithParen (c # s) = (c = CHR ''('')"
  by (simp add: startsWithParen_def)

lemma startsWithParen_plain: "plainOption b \<Longrightarrow> \<not> startsWithParen b"
  by (cases b) (simp_all add: plainOption_def startsWithParen_def)

lemma endsWithParen_snoc [simp]: "endsWithParen (s @ [c]) = (c = CHR '')'')"
  by (simp add: endsWithParen_def)

lemma endsWithParen_plain: "plainOption b \<Longrightarrow> \<not> endsWithParen (acc @ b)"
proof
  assume p: "plainOption b" and e: "endsWithParen (acc @ b)"
  from p have "b \<noteq> []" by (simp add: plainOption_def)
  with e have "last b = CHR '')''" by (simp add: endsWithParen_def)
  with \<open>b \<noteq> []\<close> have "CHR '')'' \<in> set b" by (metis last_in_set)
  with p show False by (simp add: plainOption_def)
qed

lemma restore_single:
  assumes "plainOption b"
  shows "restoreTuple 1 0 (CHR ''('' # b @ '')'') = Some (CHR ''('' # b @ '')'')"
proof -
  have "trim (CHR ''('' # b @ '')'') = CHR ''('' # b @ '')''"
    by (rule trim_id) simp_all
  moreover have "endsWithParen (CHR ''('' # b @ '')'')"
    using endsWithParen_snoc[of "CHR ''('' # b" "CHR '')''"] by simp
  ultimately show ?thesis
    by (simp add: restoreTuple_def Let_def)
qed

lemma restore_first:
  assumes "plainOption b" "1 < n"
  shows "restoreTuple n 0 (CHR ''('' # b) = Some (CHR ''('' # b @ '')'')"
proof -
  from assms have "trim (CHR ''('' # b) = CHR ''('' # b"
    by (intro trim_id) (simp_all add: plainOption_def)
  moreover have "\<not> endsWithParen (CHR ''('' # b)"
    using endsWithParen_plain[OF assms(1), of "''(''"] by simp
  moreover have "endsWithParen (CHR ''('' # b @ '')'')"
    using endsWithParen_snoc[of "CHR ''('' # b" "CHR '')''"] by simp
  ultimately show ?thesis
    using assms by (simp add: restoreTuple_def Let_def)
qed

lemma restore_middle:
  assumes "plainOption b" "0 < i" "i + 1 < n"
  shows "restoreTuple n i b = Some (CHR ''('' # b @ '')'')"
proof -
  from assms have "trim b = b" "b \<noteq> []"
    by (simp_all add: trim_id plainOption_def)
  moreover have "\<not> startsWithParen b"
    using assms by (simp add: startsWithParen_plain)
  moreover have "\<not> endsWithParen (CHR ''('' # b)"
    using endsWithParen_plain[OF assms(1), of "''(''"] by simp
  moreover have "endsWithParen (CHR ''('' # b @ '')'')"
    using endsWithParen_snoc[of "CHR ''('' # b" "CHR '')''"] by simp
  ultimately show ?thesis
    using assms by (simp add: restoreTuple_def Let_def)
qed

lemma restore_last:
  assumes "plainOption b" "0 < i" "i + 1 = n"
  shows "restoreTuple n i (b @ '')'') = Some (CHR ''('' # b @ '')'')"
proof -
  from assms have "trim (b @ '')'') = b @ '')''"
    by (intro trim_id) (simp_all add: plainOption_def)
  moreover have "\<not> startsWithParen (b @ '')'')"
    using assms by (cases b) (simp_all add: plainOption_def)
  moreover have "endsWithParen (CHR ''('' # b @ '')'')"
    using endsWithParen_snoc[of "CHR ''('' # b" "CHR '')''"] by simp
  ultimately show ?thesis
    using assms by (simp add: restoreTuple_def Let_def)
qed

lemma restore_pieces:
  assumes "bs \<noteq> []" "\<forall>b \<in> set bs. plainOption b" "k + length bs = n"
  shows "List.map_filter (\<lambda>(index, tuple). restoreTuple n index tuple)
           (zip [k ..< n] (pieces (if k = 0 then ''('' else []) bs))
         = map (\<lambda>b. CHR ''('' # b @ '')'') bs"
  using assms
proof (induction bs arbitrary: k rule: tailEnc.induct)
  case 1
  then show ?case by simp
next
  case (2 b)
  then have n: "n = Suc k" and b: "plainOption b" by simp_all
  have "restoreTuple (Suc k) k ((if k = 0 then ''('' else []) @ b @ '')'') = Some (CHR ''('' # b @ '')'')"
    using restore_single[OF b] restore_last[OF b, of k "Suc k"] by (cases "k = 0") simp_all
  then show ?case
    by (simp add: n List.map_filter_simps)
next
  case (3 b b' bs)
  then have b: "plainOption b" and lt: "Suc k < n" and n: "Suc k + length (b' # bs) = n" by simp_all
  have head: "restoreTuple n k ((if k = 0 then ''('' else []) @ b) = Some (CHR ''('' # b @ '')'')"
    using restore_first[OF b, of n] restore_middle[OF b, of k n] lt by (cases "k = 0") simp_all
  have upt: "[k ..< n] = k # [Suc k ..< n]"
    using lt by (simp add: upt_conv_Cons)
  have rest: "List.map_filter (\<lambda>(index, tuple). restoreTuple n index tuple)
           (zip [Suc k ..< n] (pieces [] (b' # bs)))
         = map (\<lambda>b. CHR ''('' # b @ '')'') (b' # bs)"
    using "3.IH"[of "Suc k"] "3.prems" n by simp
  show ?case
    using head rest by (simp add: upt List.map_filter_simps del: upt_Suc)
qed

lemma join_nonempty: "opts \<noteq> [] \<Longrightarrow> \<forall>opt \<in> set opts. opt \<noteq> [] \<Longrightarrow> join sep opts \<noteq> []"
  by (induction sep opts rule: join.induct) simp_all

lemma plain_join:
  "opts \<noteq> [] \<Longrightarrow> \<forall>opt \<in> set opts. plainOption opt \<Longrightarrow> plainOption (join '', '' opts)"
proof (induction "'', ''" opts rule: join.induct)
  case 1
  then show ?case by simp
next
  case (2 x)
  then show ?case by simp
next
  case (3 x y ys)
  then have x: "plainOption x" and r: "plainOption (join '', '' (y # ys))" by simp_all
  from r have ne: "join '', '' (y # ys) \<noteq> []" by (simp add: plainOption_def)
  from x have "x \<noteq> []" by (simp add: plainOption_def)
  then have "hd (x @ '', '' @ join '', '' (y # ys)) = hd x" by simp
  moreover have "last (x @ '', '' @ join '', '' (y # ys)) = last (join '', '' (y # ys))"
    using ne by simp
  ultimately show ?case
    using x r by (simp add: plainOption_def)
qed

lemma tailEnc_last: "bs \<noteq> [] \<Longrightarrow> tailEnc bs \<noteq> [] \<and> last (tailEnc bs) = CHR '')''"
  by (induction bs rule: tailEnc.induct) simp_all

lemma length_pieces: "bs \<noteq> [] \<Longrightarrow> length (pieces acc bs) = length bs"
  by (induction acc bs rule: pieces.induct) simp_all

lemma decodeCell_wrapped:
  assumes "\<forall>b \<in> set bs. plainOption b"
  shows "decodeCell (CStr (join '', '' (map (\<lambda>b. CHR ''('' # b @ '')'') bs)))
           = map (\<lambda>b. CHR ''('' # b @ '')'') bs"
proof (cases "bs = []")
  case True
  then show ?thesis by (simp add: decodeCell_def truthy_def)
next
  case False
  let ?E = "CHR ''('' # tailEnc bs"
  have enc: "join '', '' (map (\<lambda>b. CHR ''('' # b @ '')'') bs) = ?E"
    using join_wrap[OF False] by simp
  have "trim ?E = ?E"
    using tailEnc_last[OF False] by (intro trim_id) simp_all
  moreover have "splitTuples [] ?E = pieces ''('' bs"
  proof -
    have "afterSeparator ?E = None"
      by (cases "tailEnc bs" rule: afterSeparator.cases) simp_all
    then have "splitTuples [] ?E = splitTuples ''('' (tailEnc bs)" by simp
    also have "\<dots> = pieces ''('' bs"
      using False assms by (intro splitTuples_tailEnc) (auto simp: plainOption_def)
    finally show ?thesis .
  qed
  moreover have "List.map_filter (\<lambda>(index, tuple). restoreTuple (length bs) index tuple)
           (zip [0 ..< length bs] (pieces ''('' bs)) = map (\<lambda>b. CHR ''('' # b @ '')'') bs"
    using restore_pieces[OF False assms, of 0 "length bs"] by simp
  ultimately show ?thesis
    by (simp add: decodeCell_def truthy_def cellToString_def enc length_pieces[OF False] Let_def)
qed

lemma renderTuple_wrap: "opts \<noteq> [] \<Longrightarrow> renderTuple opts = CHR ''('' # join '', '' opts @ '')''"
  by (simp add: renderTuple_def)

lemma rendered_nonempty:
  "filter (\<lambda>s. s \<noteq> []) (map renderTuple os) = map renderTuple (filter (\<lambda>opts. opts \<noteq> []) os)"
  by (induction os) (simp_all add: renderTuple_def)

lemma encodeOptions_nonempty:
  "encodeOptions os
     = join '', '' (map (\<lambda>b. CHR ''('' # b @ '')'') (map (join '', '') (filter (\<lambda>opts. opts \<noteq> []) os)))"
proof -
  have "map renderTuple (filter (\<lambda>opts. opts \<noteq> []) os)
          = map (\<lambda>b. CHR ''('' # b @ '')'') (map (join '', '') (filter (\<lambda>opts. opts \<noteq> []) os))"
    by (simp add: renderTuple_wrap)
  then show ?thesis
    by (simp only: encodeOptions_def rendered_nonempty)
qed

lemma decode_encode_plain:
  assumes "\<forall>opts \<in> set os. \<forall>opt \<in> set opts. plainOption opt"
  shows "decodeCell (CStr (encodeOptions os)) = map renderTuple (filter (\<lambda>opts. opts \<noteq> []) os)"
proof -
  let ?bs = "map (join '', '') (filter (\<lambda>opts. opts \<noteq> []) os)"
  have "\<forall>b \<in> set ?bs. plainOption b"
    using assms by (auto intro!: plain_join)
  then have "decodeCell (CStr (encodeOptions os)) = map (\<lambda>b. CHR ''('' # b @ '')'') ?bs"
    by (simp only: encodeOptions_nonempty decodeCell_wrapped)
  also have "\<dots> = map renderTuple (filter (\<lambda>opts. opts \<noteq> []) os)"
    by (simp add: renderTuple_wrap)
  finally show ?thesis .
qed




section \<open>Properties of the row builder\<close>

lemma itemInstanceOptions_legacy:
  "itemInstanceOptions \<lparr>name = n, qty = Some (int q), instances = None, selectedOptions = Some S\<rparr>
     = replicate q (filterBoolean S)"
  by (simp add: itemInstanceOptions_def legacyInstanceOptions_def)

lemma itemInstanceOptions_current:
  "cq = None \<or> cq = Some (int q) \<Longrightarrow>
   itemInstanceOptions \<lparr>name = n, qty = cq, instances = Some (replicate q \<lparr>options = S\<rparr>), selectedOptions = None\<rparr>
     = replicate q (filterBoolean S)"
  by (cases q) (auto simp: itemInstanceOptions_def legacyInstanceOptions_def)

lemma collectItems_append:
  "collectItems m (xs @ ys) =
     (case collectItems m xs of Inl e \<Rightarrow> Inl e | Inr m' \<Rightarrow> collectItems m' ys)"
  by (induction xs arbitrary: m) (auto split: sum.splits)

lemma collectItem_cong:
  "name a = name b \<Longrightarrow> itemInstanceOptions a = itemInstanceOptions b \<Longrightarrow> collectItem m a = collectItem m b"
  by (simp add: collectItem_def)

lemma collectItems_swap:
  assumes "name a = name b" "itemInstanceOptions a = itemInstanceOptions b"
  shows "collectItems m (pre @ a # post) = collectItems m (pre @ b # post)"
  using collectItem_cong[OF assms] by (simp add: collectItems_append split: sum.splits)

lemma baseRow_items [simp]: "baseRow headers date (p\<lparr>items := its\<rparr>) = baseRow headers date p"
  by (simp add: baseRow_def)

text \<open>
  C9. A line item in the legacy shape (quantity \<open>q\<close> and one \<open>selectedOptions\<close> list \<open>S\<close>,
  no instances) gives the same result of the row builder, hence the same count and options
  cells, as the line item in the current shape with \<open>q\<close> instances that each carry \<open>S\<close>,
  whatever the other line items, the headers and the customer fields are.
\<close>

theorem legacy_shape_same_row:
  "orderRow headers date
     (p\<lparr>items := pre @ [\<lparr>name = n, qty = Some (int q), instances = None, selectedOptions = Some S\<rparr>] @ post\<rparr>)
   = orderRow headers date
       (p\<lparr>items := pre @ [\<lparr>name = n, qty = None, instances = Some (replicate q \<lparr>options = S\<rparr>),
                               selectedOptions = None\<rparr>] @ post\<rparr>)
   \<and> orderRow headers date
       (p\<lparr>items := pre @ [\<lparr>name = n, qty = Some (int q), instances = None, selectedOptions = Some S\<rparr>] @ post\<rparr>)
     = orderRow headers date
         (p\<lparr>items := pre @ [\<lparr>name = n, qty = Some (int q), instances = Some (replicate q \<lparr>options = S\<rparr>),
                                 selectedOptions = None\<rparr>] @ post\<rparr>)"
proof -
  let ?a = "\<lparr>name = n, qty = Some (int q), instances = None, selectedOptions = Some S\<rparr>"
  let ?b = "\<lparr>name = n, qty = None, instances = Some (replicate q \<lparr>options = S\<rparr>), selectedOptions = None\<rparr>"
  let ?c = "\<lparr>name = n, qty = Some (int q), instances = Some (replicate q \<lparr>options = S\<rparr>), selectedOptions = None\<rparr>"
  have "itemInstanceOptions ?a = itemInstanceOptions ?b" "itemInstanceOptions ?a = itemInstanceOptions ?c"
    by (simp_all add: itemInstanceOptions_legacy itemInstanceOptions_current)
  then have "collectItems [] (pre @ ?a # post) = collectItems [] (pre @ ?b # post)"
    and "collectItems [] (pre @ ?a # post) = collectItems [] (pre @ ?c # post)"
    by (auto intro!: collectItems_swap)
  then show ?thesis
    by (simp add: orderRow_def split: sum.splits)
qed

text \<open>The row of the spec's scenario, in both shapes of the payload.\<close>

lemma legacy_shape_example:
  "orderRow [''Date'', ''Name'', ''Phone'', ''Delivery'', ''Email'', ''wrap'', ''wrap - options'']
     (CDate ''d'')
     \<lparr>payload_name = CStr ''Ann'', phone = CStr ''1'', delivery = CStr ''pickup'', email = CStr ''a@b'',
      items = [\<lparr>name = ''wrap'', qty = Some 2, instances = None, selectedOptions = Some [Some ''hot'', None]\<rparr>]\<rparr>
   = Inr [CDate ''d'', CStr ''Ann'', CStr ''1'', CStr ''pickup'', CStr ''a@b'', CNum 2, CStr ''(hot), (hot)'']"
  by code_simp

subsection \<open>What \<open>itemOptionsMap\<close> holds\<close>

lemma appendTo_Nil [simp]: "appendTo m k [] = m"
  by (induction m) (auto simp: appendTo_def)

lemma appendTo_appendTo: "appendTo (appendTo m k a) k b = appendTo m k (a @ b)"
  by (induction m) (auto simp: appendTo_def)

lemma fst_appendTo [simp]: "map fst (appendTo m k os) = map fst m"
  by (induction m) (auto simp: appendTo_def)

lemma map_of_appendTo:
  "map_of (appendTo m k os) n = (if n = k then map_option (\<lambda>v. v @ os) (map_of m k) else map_of m n)"
  by (induction m) (auto simp: appendTo_def)

lemma pushInstance_own: "map_of m k = Some v \<Longrightarrow> pushInstance m k opts = Inr (appendTo m k [opts])"
  by (simp add: pushInstance_def appendTo_def)

lemma pushInstances_own: "map_of m k = Some v \<Longrightarrow> pushInstances m k os = Inr (appendTo m k os)"
proof (induction os arbitrary: m v)
  case Nil
  show ?case by simp
next
  case (Cons opts os)
  have "map_of (appendTo m k [opts]) k = Some (v @ [opts])"
    using Cons.prems by (simp add: map_of_appendTo)
  from Cons.IH[OF this] show ?case
    using Cons.prems by (simp add: pushInstance_own appendTo_appendTo)
qed

lemma pushInstances_missing:
  "map_of m k = None \<Longrightarrow> pushInstances m k os = (if os = [] then Inr m else Inl TypeError)"
  by (cases os) (simp_all add: pushInstance_def)

lemma collectItem_cases:
  "collectItem m item =
     (if map_of m (name item) \<noteq> None then Inr (appendTo m (name item) (itemInstanceOptions item))
      else if name item \<in> set objectPrototypeKeys
        then (if itemInstanceOptions item = [] then Inr m else Inl TypeError)
      else Inr (m @ [(name item, itemInstanceOptions item)]))"
proof -
  have "map_of m (name item) = None \<Longrightarrow>
      appendTo (m @ [(name item, [])]) (name item) os = m @ [(name item, os)]" for os
    by (induction m) (auto simp: appendTo_def split: if_splits)
  moreover have "map_of m (name item) = None \<Longrightarrow> map_of (m @ [(name item, [])]) (name item) = Some []"
    by (simp add: map_add_def)
  ultimately show ?thesis
    by (auto simp: collectItem_def ensureKey_def pushInstances_own pushInstances_missing)
qed

lemma instancesOf_Cons:
  "instancesOf n (item # its) = (if name item = n then itemInstanceOptions item else []) @ instancesOf n its"
  by (simp add: instancesOf_def)

lemma collectItems_lookup:
  assumes "collectItems m its = Inr m'" "distinct (map fst m)"
  shows "distinct (map fst m')
       \<and> (\<forall>n. map_of m' n =
            (case map_of m n of
               Some v \<Rightarrow> Some (v @ instancesOf n its)
             | None \<Rightarrow>
                 if n \<in> name ` set its \<and> n \<notin> set objectPrototypeKeys
                 then Some (instancesOf n its) else None))"
  using assms
proof (induction its arbitrary: m)
  case Nil
  then show ?case by (auto simp: instancesOf_def split: option.splits)
next
  case (Cons item its)
  from Cons.prems obtain m1 where step: "collectItem m item = Inr m1" and rest: "collectItems m1 its = Inr m'"
    by (auto split: sum.splits)
  have d1: "distinct (map fst m1)"
    using step Cons.prems(2) 
    by (auto simp: collectItem_cases map_of_eq_None_iff split: if_splits)
  have look1: "map_of m1 n =
      (if map_of m (name item) \<noteq> None then
         (if n = name item then map_option (\<lambda>v. v @ itemInstanceOptions item) (map_of m n) else map_of m n)
       else if name item \<in> set objectPrototypeKeys then map_of m n
       else (if n = name item then Some (itemInstanceOptions item) else map_of m n))" for n
    using step by (auto simp: collectItem_cases map_of_appendTo map_add_def split: if_splits option.splits)
  from Cons.IH[OF rest d1] have d': "distinct (map fst m')"
    and look': "\<And>n. map_of m' n =
            (case map_of m1 n of
               Some v \<Rightarrow> Some (v @ instancesOf n its)
             | None \<Rightarrow>
                 if n \<in> name ` set its \<and> n \<notin> set objectPrototypeKeys
                 then Some (instancesOf n its) else None)"
    by simp_all
  have empty: "map_of m (name item) = None \<Longrightarrow> name item \<in> set objectPrototypeKeys \<Longrightarrow> itemInstanceOptions item = []"
    using step by (auto simp: collectItem_cases split: if_splits)
  show ?case
  proof (intro conjI allI)
    show "distinct (map fst m')" by (rule d')
  next
    fix n
    show "map_of m' n =
            (case map_of m n of
               Some v \<Rightarrow> Some (v @ instancesOf n (item # its))
             | None \<Rightarrow>
                 if n \<in> name ` set (item # its) \<and> n \<notin> set objectPrototypeKeys
                 then Some (instancesOf n (item # its)) else None)"
      using empty by (auto simp: look' look1 instancesOf_Cons split: option.splits)
  qed
qed

lemma collectItems_entries:
  assumes "collectItems [] its = Inr m"
  shows "distinct (map fst m)"
    and "(n, v) \<in> set m \<longleftrightarrow> n \<in> name ` set its \<and> n \<notin> set objectPrototypeKeys \<and> v = instancesOf n its"
proof -
  from collectItems_lookup[OF assms] have d: "distinct (map fst m)"
    and l: "\<And>n. map_of m n = (if n \<in> name ` set its \<and> n \<notin> set objectPrototypeKeys
                 then Some (instancesOf n its) else None)"
    by simp_all
  show "distinct (map fst m)" by (rule d)
  have "(n, v) \<in> set m \<longleftrightarrow> map_of m n = Some v"
    using d by simp
  then show "(n, v) \<in> set m \<longleftrightarrow> n \<in> name ` set its \<and> n \<notin> set objectPrototypeKeys \<and> v = instancesOf n its"
    by (auto simp: l)
qed

subsection \<open>What the column writes leave in a cell\<close>

lemma indexOf_Some: "indexOf xs x = Some i \<Longrightarrow> i < length xs \<and> xs ! i = x"
  by (induction xs arbitrary: i) (auto split: if_splits)

lemma indexOf_None: "indexOf xs x = None \<longleftrightarrow> x \<notin> set xs"
  by (induction xs) auto

lemma indexOf_distinct_keys: "indexOf xs x = Some i \<Longrightarrow> indexOf xs y = Some i \<Longrightarrow> x = y"
  by (auto dest!: indexOf_Some)

lemma length_setAt: "i < length a \<Longrightarrow> length (setAt a i v) = length a"
  by (simp add: setAt_def)

lemma nth_setAt: "i < length a \<Longrightarrow> setAt a i v ! j = (if j = i then v else a ! j)"
  by (simp add: setAt_def)

lemma length_writeItem: "length headers \<le> length r \<Longrightarrow> length (writeItem headers r e) = length r"
  by (cases e) (auto simp: Let_def length_setAt split: option.splits dest!: indexOf_Some)

lemma nth_writeItem:
  assumes "length headers \<le> length r"
  shows "writeItem headers r (k, v) ! i =
     (if indexOf headers (k @ '' - options'') = Some i then CStr (encodeOptions v)
      else if indexOf headers k = Some i then CNum (length v)
      else r ! i)"
  using assms
  by (auto simp: Let_def nth_setAt length_setAt split: option.splits dest!: indexOf_Some)

declare writeItem.simps [simp del]

lemma length_foldl_writeItem:
  "length headers \<le> length r \<Longrightarrow> length (foldl (writeItem headers) r es) = length r"
  by (induction es arbitrary: r) (simp_all add: length_writeItem)

lemma nth_foldl_untouched:
  assumes "length headers \<le> length r"
    and "\<forall>(k, v) \<in> set es. indexOf headers k \<noteq> Some i \<and> indexOf headers (k @ '' - options'') \<noteq> Some i"
  shows "foldl (writeItem headers) r es ! i = r ! i"
  using assms
proof (induction es arbitrary: r)
  case Nil
  show ?case by simp
next
  case (Cons e es)
  obtain k v where e: "e = (k, v)" by (cases e)
  have "foldl (writeItem headers) (writeItem headers r e) es ! i = writeItem headers r e ! i"
    using Cons.prems by (intro Cons.IH) (simp_all add: length_writeItem)
  also have "\<dots> = r ! i"
    using Cons.prems by (simp add: e nth_writeItem)
  finally show ?case by simp
qed

lemma not_written_at:
  assumes "indexOf headers x = Some i" "k \<noteq> x" "k @ '' - options'' \<noteq> x"
  shows "indexOf headers k \<noteq> Some i \<and> indexOf headers (k @ '' - options'') \<noteq> Some i"
proof -
  from assms(1) have "headers ! i = x" by (simp add: indexOf_Some)
  with assms(2,3) show ?thesis
    by (metis indexOf_Some)
qed

lemma takeWhile_key: "n \<notin> fst ` set a \<Longrightarrow> takeWhile (\<lambda>e. fst e \<noteq> n) (a @ (n, v) # b) = a"
  by (induction a) auto

lemma nth_foldl_written:
  assumes len: "length headers \<le> length r"
    and d: "distinct (map fst es)"
    and mem: "(n, v) \<in> set es"
    and col: "indexOf headers x = Some i"
    and free: "\<forall>(k, w) \<in> set es. k \<noteq> n \<longrightarrow> k \<noteq> x \<and> k @ '' - options'' \<noteq> x"
  shows "foldl (writeItem headers) r es ! i = writeItem headers (foldl (writeItem headers) r (takeWhile (\<lambda>e. fst e \<noteq> n) es)) (n, v) ! i"
proof -
  from mem obtain a b where es: "es = a @ (n, v) # b"
    by (auto dest: split_list)
  from d have nb: "n \<notin> fst ` set b" and na: "n \<notin> fst ` set a"
    by (simp_all add: es)
  have tw: "takeWhile (\<lambda>e. fst e \<noteq> n) es = a"
    using na by (simp add: es takeWhile_key)
  let ?r1 = "foldl (writeItem headers) r a"
  have len1: "length headers \<le> length ?r1"
    using len by (simp add: length_foldl_writeItem)
  have other: "\<forall>(k, w) \<in> set b. indexOf headers k \<noteq> Some i \<and> indexOf headers (k @ '' - options'') \<noteq> Some i"
  proof clarify
    fix k w assume kw: "(k, w) \<in> set b"
    then have "k \<noteq> n" using nb by (metis fst_conv image_eqI)
    moreover from kw have "(k, w) \<in> set es" by (simp add: es)
    ultimately have "k \<noteq> x" "k @ '' - options'' \<noteq> x"
      using free by blast+
    then show "indexOf headers k \<noteq> Some i \<and> indexOf headers (k @ '' - options'') \<noteq> Some i"
      by (rule not_written_at[OF col])
  qed
  have "foldl (writeItem headers) r es ! i = foldl (writeItem headers) (writeItem headers ?r1 (n, v)) b ! i"
    by (simp add: es)
  also have "\<dots> = writeItem headers ?r1 (n, v) ! i"
    using len1 other by (intro nth_foldl_untouched) (simp_all add: length_writeItem)
  finally show ?thesis by (simp only: tw)
qed

lemma nth_foldl_count:
  assumes len: "length headers \<le> length r"
    and d: "distinct (map fst es)"
    and mem: "(n, v) \<in> set es"
    and col: "indexOf headers n = Some i"
    and free: "\<forall>(k, w) \<in> set es. k @ '' - options'' \<noteq> n"
  shows "foldl (writeItem headers) r es ! i = CNum (length v)"
proof -
  let ?r1 = "foldl (writeItem headers) r (takeWhile (\<lambda>e. fst e \<noteq> n) es)"
  have len1: "length headers \<le> length ?r1"
    using len by (simp add: length_foldl_writeItem)
  have "\<forall>(k, w) \<in> set es. k \<noteq> n \<longrightarrow> k \<noteq> n \<and> k @ '' - options'' \<noteq> n"
    using free by blast
  from nth_foldl_written[OF len d mem col this]
  have "foldl (writeItem headers) r es ! i = writeItem headers ?r1 (n, v) ! i" .
  also have "indexOf headers (n @ '' - options'') \<noteq> Some i"
    using col by (metis indexOf_Some append_self_conv list.distinct(1))
  then have "writeItem headers ?r1 (n, v) ! i = CNum (length v)"
    using col len1 by (simp add: nth_writeItem)
  finally show ?thesis .
qed

lemma nth_foldl_options:
  assumes len: "length headers \<le> length r"
    and d: "distinct (map fst es)"
    and mem: "(n, v) \<in> set es"
    and col: "indexOf headers (n @ '' - options'') = Some j"
    and free: "\<forall>(k, w) \<in> set es. k \<noteq> n @ '' - options''"
  shows "foldl (writeItem headers) r es ! j = CStr (encodeOptions v)"
proof -
  let ?r1 = "foldl (writeItem headers) r (takeWhile (\<lambda>e. fst e \<noteq> n) es)"
  have len1: "length headers \<le> length ?r1"
    using len by (simp add: length_foldl_writeItem)
  have "\<forall>(k, w) \<in> set es. k \<noteq> n \<longrightarrow> k \<noteq> n @ '' - options'' \<and> k @ '' - options'' \<noteq> n @ '' - options''"
    using free by auto
  from nth_foldl_written[OF len d mem col this]
  have "foldl (writeItem headers) r es ! j = writeItem headers ?r1 (n, v) ! j" .
  also have "\<dots> = CStr (encodeOptions v)"
    using col len1 by (simp add: nth_writeItem)
  finally show ?thesis .
qed

lemma set_objectEntries: "set (objectEntries m) = set m"
  by (auto simp: objectEntries_def)

lemma distinct_keys_objectEntries:
  assumes "distinct (map fst m)"
  shows "distinct (map fst (objectEntries m))"
proof -
  have d: "distinct m" and inj: "inj_on fst (set m)"
    using assms by (simp_all add: distinct_map)
  have "distinct (objectEntries m)"
    using d by (auto simp: objectEntries_def)
  moreover have "inj_on fst (set (objectEntries m))"
    using inj by (simp add: set_objectEntries)
  ultimately show ?thesis by (simp add: distinct_map)
qed

lemma length_baseRow: "length headers \<le> length (baseRow headers date p)"
  by (simp add: baseRow_def setAt_def)

subsection \<open>The cells of an item, and line items without a column\<close>

lemma collectItems_total:
  "\<forall>item \<in> set its. name item \<notin> set objectPrototypeKeys \<Longrightarrow> \<exists>m'. collectItems m its = Inr m'"
  by (induction its arbitrary: m) (auto simp: collectItem_cases)

lemma orderRow_total:
  "\<forall>item \<in> set (items p). name item \<notin> set objectPrototypeKeys \<Longrightarrow> \<exists>row. orderRow headers date p = Inr row"
  using collectItems_total[of "items p" "[]"] by (auto simp: orderRow_def)

lemma orderRow_count_cell:
  assumes ok: "orderRow headers date p = Inr row"
    and n: "n \<in> name ` set (items p)" "n \<notin> set objectPrototypeKeys"
    and col: "indexOf headers n = Some i"
    and free: "\<forall>item \<in> set (items p). name item @ '' - options'' \<noteq> n"
  shows "row ! i = CNum (length (instancesOf n (items p)))"
proof -
  from ok obtain m where m: "collectItems [] (items p) = Inr m"
    and row: "row = foldl (writeItem headers) (baseRow headers date p) (objectEntries m)"
    by (auto simp: orderRow_def split: sum.splits)
  note ent = collectItems_entries[OF m]
  have mem: "(n, instancesOf n (items p)) \<in> set (objectEntries m)"
    using n by (simp add: set_objectEntries ent(2))
  have "\<forall>(k, w) \<in> set (objectEntries m). k @ '' - options'' \<noteq> n"
  proof clarify
    fix k w assume "(k, w) \<in> set (objectEntries m)" and eq: "n = k @ '' - options''"
    then have "k \<in> name ` set (items p)"
      by (simp add: set_objectEntries ent(2))
    with free eq show False by blast
  qed
  from nth_foldl_count[OF length_baseRow distinct_keys_objectEntries[OF ent(1)] mem col this]
  show ?thesis by (simp add: row)
qed

lemma orderRow_options_cell:
  assumes ok: "orderRow headers date p = Inr row"
    and n: "n \<in> name ` set (items p)" "n \<notin> set objectPrototypeKeys"
    and col: "indexOf headers (n @ '' - options'') = Some j"
    and free: "\<forall>item \<in> set (items p). name item \<noteq> n @ '' - options''"
  shows "row ! j = CStr (encodeOptions (instancesOf n (items p)))"
proof -
  from ok obtain m where m: "collectItems [] (items p) = Inr m"
    and row: "row = foldl (writeItem headers) (baseRow headers date p) (objectEntries m)"
    by (auto simp: orderRow_def split: sum.splits)
  note ent = collectItems_entries[OF m]
  have mem: "(n, instancesOf n (items p)) \<in> set (objectEntries m)"
    using n by (simp add: set_objectEntries ent(2))
  have "\<forall>(k, w) \<in> set (objectEntries m). k \<noteq> n @ '' - options''"
  proof clarify
    fix w assume "(n @ '' - options'', w) \<in> set (objectEntries m)"
    then have "n @ '' - options'' \<in> name ` set (items p)"
      by (simp add: set_objectEntries ent(2))
    with free show False by force
  qed
  from nth_foldl_options[OF length_baseRow distinct_keys_objectEntries[OF ent(1)] mem col this]
  show ?thesis by (simp add: row)
qed














lemma length_filter_split:
  "length xs = length (filter P xs) + length (filter (\<lambda>x. \<not> P x) xs)"
  by (induction xs) simp_all

lemma encodeOptions_skips_empty:
  "encodeOptions insts = join '', '' (map renderTuple (filter (\<lambda>opts. opts \<noteq> []) insts))"
  by (simp only: encodeOptions_def rendered_nonempty)

text \<open>
  C5 (as amended). Under the conditions of C10 on the order and the name \<open>n\<close>: the count
  column of \<open>n\<close> holds the number of its instances with a non-empty option plus the number
  of those without (each of these adds one), while the options column holds one tuple for
  each instance with a non-empty option and nothing for the others; so the totals decode
  no tuple for them (stated for plain option texts, where decoding is exact).
\<close>

theorem empty_instance_counted_not_rendered:
  assumes "orderRow headers date p = Inr row"
    and "n \<in> name ` set (items p)"
    and "n \<notin> set objectPrototypeKeys"
    and "\<forall>item \<in> set (items p). name item \<noteq> n @ '' - options'' \<and> name item @ '' - options'' \<noteq> n"
  shows "(\<forall>i. indexOf headers n = Some i \<longrightarrow>
            row ! i = CNum (length (filter (\<lambda>opts. opts \<noteq> []) (instancesOf n (items p)))
                            + length (filter (\<lambda>opts. opts = []) (instancesOf n (items p)))))
       \<and> (\<forall>j. indexOf headers (n @ '' - options'') = Some j \<longrightarrow>
            row ! j = CStr (join '', '' (map renderTuple
                          (filter (\<lambda>opts. opts \<noteq> []) (instancesOf n (items p)))))
            \<and> ((\<forall>opts \<in> set (instancesOf n (items p)). \<forall>opt \<in> set opts. plainOption opt) \<longrightarrow>
                 decodeCell (row ! j)
                   = map renderTuple (filter (\<lambda>opts. opts \<noteq> []) (instancesOf n (items p)))))"
proof (intro conjI allI impI)
  fix i assume "indexOf headers n = Some i"
  with assms have "row ! i = CNum (length (instancesOf n (items p)))"
    by (intro orderRow_count_cell) simp_all
  then show "row ! i = CNum (length (filter (\<lambda>opts. opts \<noteq> []) (instancesOf n (items p)))
                            + length (filter (\<lambda>opts. opts = []) (instancesOf n (items p))))"
    using length_filter_split[of "instancesOf n (items p)" "\<lambda>opts. opts \<noteq> []"] by simp
next
  fix j assume col: "indexOf headers (n @ '' - options'') = Some j"
  with assms have cell: "row ! j = CStr (encodeOptions (instancesOf n (items p)))"
    by (intro orderRow_options_cell) simp_all
  then show "row ! j = CStr (join '', '' (map renderTuple
                          (filter (\<lambda>opts. opts \<noteq> []) (instancesOf n (items p)))))"
    by (simp only: encodeOptions_skips_empty)
  assume "\<forall>opts \<in> set (instancesOf n (items p)). \<forall>opt \<in> set opts. plainOption opt"
  then show "decodeCell (row ! j)
                   = map renderTuple (filter (\<lambda>opts. opts \<noteq> []) (instancesOf n (items p)))"
    by (simp only: cell decode_encode_plain)
qed

theorem empty_instance_counted_not_rendered_witness:
  "orderRow exampleHeaders (CDate ''d2'')
     (examplePayload
       [\<lparr>name = ''wrap'', qty = Some 3,
         instances = Some [\<lparr>options = [Some ''hot'']\<rparr>, \<lparr>options = [None, Some []]\<rparr>, \<lparr>options = [Some ''iced'']\<rparr>],
         selectedOptions = None\<rparr>])
     = Inr [CDate ''d2'', CStr ''Ann'', CStr ''555'', CStr ''pickup'', CStr ''ann@example.org'',
            CNum (2 + 1), CStr ''(hot), (iced)'', CStr []]
   \<and> decodeCell (CStr ''(hot), (iced)'') = [''(hot)'', ''(iced)'']"
proof -
  let ?its = "[\<lparr>name = ''wrap'', qty = Some 3,
         instances = Some [\<lparr>options = [Some ''hot'']\<rparr>, \<lparr>options = [None, Some []]\<rparr>, \<lparr>options = [Some ''iced'']\<rparr>],
         selectedOptions = None\<rparr>]"
  let ?row = "[CDate ''d2'', CStr ''Ann'', CStr ''555'', CStr ''pickup'', CStr ''ann@example.org'',
            CNum 3, CStr ''(hot), (iced)'', CStr []]"
  have ok: "orderRow exampleHeaders (CDate ''d2'') (examplePayload ?its) = Inr ?row"
    by code_simp
  have n: "''wrap'' \<in> name ` set (items (examplePayload ?its))"
    by (simp add: examplePayload_def)
  have np: "''wrap'' \<notin> set objectPrototypeKeys"
    by (simp add: objectPrototypeKeys_def)
  have free: "\<forall>item \<in> set (items (examplePayload ?its)).
      name item \<noteq> ''wrap'' @ '' - options'' \<and> name item @ '' - options'' \<noteq> ''wrap''"
    by (simp add: examplePayload_def)
  have insts: "instancesOf ''wrap'' (items (examplePayload ?its)) = [[''hot''], [], [''iced'']]"
    by (simp add: examplePayload_def instancesOf_def itemInstanceOptions_def)
  have col: "indexOf exampleHeaders (''wrap'' @ '' - options'') = Some 6"
    by (simp add: exampleHeaders_def)
  have plain: "\<forall>opts \<in> set [[''hot''], [], [''iced'']]. \<forall>opt \<in> set opts. plainOption opt"
    by (simp add: plainOption_def isSpace_def)
  from empty_instance_counted_not_rendered[OF ok n np free]
  have "decodeCell (?row ! 6) = map renderTuple (filter (\<lambda>opts. opts \<noteq> []) [[''hot''], [], [''iced'']])"
    using col plain unfolding insts by blast
  then have "decodeCell (CStr ''(hot), (iced)'') = [''(hot)'', ''(iced)'']"
    by (simp add: renderTuple_def)
  with ok show ?thesis by simp
qed

text \<open>
  C5 as stated fails when the item's count column is also the options column of another
  line item: the instance without options of \<open>wrap - options\<close> is counted, but the cell
  under the header \<open>wrap - options\<close> ends up holding the tuples of \<open>wrap\<close>, not the count 1.
\<close>

theorem count_column_overwritten_counterexample:
  "orderRow exampleHeaders (CDate ''d2'')
     (examplePayload
       [\<lparr>name = ''wrap - options'', qty = Some 1, instances = Some [\<lparr>options = [None]\<rparr>], selectedOptions = None\<rparr>,
        \<lparr>name = ''wrap'', qty = Some 1, instances = Some [\<lparr>options = [Some ''hot'']\<rparr>], selectedOptions = None\<rparr>])
   = Inr [CDate ''d2'', CStr ''Ann'', CStr ''555'', CStr ''pickup'', CStr ''ann@example.org'',
          CNum 1, CStr ''(hot)'', CStr []]
   \<and> indexOf exampleHeaders ''wrap - options'' = Some 6
   \<and> instancesOf ''wrap - options''
       [\<lparr>name = ''wrap - options'', qty = Some 1, instances = Some [\<lparr>options = [None]\<rparr>], selectedOptions = None\<rparr>,
        \<lparr>name = ''wrap'', qty = Some 1, instances = Some [\<lparr>options = [Some ''hot'']\<rparr>], selectedOptions = None\<rparr>]
     = [[]]
   \<and> [CDate ''d2'', CStr ''Ann'', CStr ''555'', CStr ''pickup'', CStr ''ann@example.org'',
        CNum 1, CStr ''(hot)'', CStr []] ! 6 \<noteq> CNum (length [[] :: string list])"
  by code_simp

section \<open>Properties of the rebuild\<close>

lemma replay_rows:
  "foldl replayStep (sheet, k) rows =
     (sheet\<lparr>sheet_rows := sheet_rows sheet @ List.map_filter (replayRow (sheet_headers sheet)) rows\<rparr>,
      k + length (List.map_filter (replayRow (sheet_headers sheet)) rows))"
proof (induction rows arbitrary: sheet k)
  case Nil
  show ?case by (simp add: List.map_filter_simps)
next
  case (Cons row rows)
  show ?case
  proof (cases "replayRow (sheet_headers sheet) row")
    case None
    then have "replayStep (sheet, k) row = (sheet, k)"
      by (simp add: replayStep_def)
    with None show ?thesis
      by (simp add: Cons.IH List.map_filter_simps)
  next
    case (Some rowData)
    then have "replayStep (sheet, k) row = (sheet\<lparr>sheet_rows := sheet_rows sheet @ [rowData]\<rparr>, k + 1)"
      by (simp add: replayStep_def)
    with Some show ?thesis
      by (simp add: Cons.IH List.map_filter_simps)
  qed
qed

lemma headers_updateTotalsRow [simp]: "sheet_headers (updateTotalsRow sheet) = sheet_headers sheet"
  by (simp add: updateTotalsRow_def Let_def)

lemma same_headers_rows:
  fixes a b :: orders_sheet
  shows "sheet_headers a = sheet_headers b \<Longrightarrow> a\<lparr>sheet_rows := rs\<rparr> = b\<lparr>sheet_rows := rs\<rparr>"
  by (cases a, cases b) simp

lemma buildOrdersFromJson_cases:
  "buildOrdersFromJson (Some journal) (Some sheet) =
     (case refused journal sheet of Some a \<Rightarrow> (a, Some sheet) | None \<Rightarrow> rebuilt journal sheet)"
  by (simp add: buildOrdersFromJson_def refused_def rebuilt_def replay_rows Let_def)

lemma refused_headers: "sheet_headers a = sheet_headers b \<Longrightarrow> refused journal a = refused journal b"
  by (simp add: refused_def)

lemma rebuilt_headers: "sheet_headers a = sheet_headers b \<Longrightarrow> rebuilt journal a = rebuilt journal b"
proof -
  assume h: "sheet_headers a = sheet_headers b"
  show ?thesis
    unfolding rebuilt_def Let_def h same_headers_rows[OF h] ..
qed

lemma rebuilt_sheet: "\<exists>k sheet'. rebuilt journal sheet = (Replayed k, Some sheet') \<and> sheet_headers sheet' = sheet_headers sheet"
  by (simp add: rebuilt_def Let_def)

text \<open>
  C7. Rebuild is idempotent: run on the projection that a rebuild of the same journal left,
  it ends with the same alert and the same projection (rows, their order, cell values, totals
  row). And what a rebuild leaves depends on the journal and the header row only: from
  any projection it is what it is from the projection cleared of its rows, unless a guard
  ends the function, which then leaves the sheet as it was.
\<close>

theorem rebuild_idempotent:
  "buildOrdersFromJson ordersJsonSheet (snd (buildOrdersFromJson ordersJsonSheet ordersSheet))
     = buildOrdersFromJson ordersJsonSheet ordersSheet
   \<and> buildOrdersFromJson ordersJsonSheet (Some sheet)
     = (case fst (buildOrdersFromJson ordersJsonSheet (Some (sheet\<lparr>sheet_rows := []\<rparr>))) of
          Replayed k \<Rightarrow> buildOrdersFromJson ordersJsonSheet (Some (sheet\<lparr>sheet_rows := []\<rparr>))
        | OrdersJsonNotFound \<Rightarrow> (OrdersJsonNotFound, Some sheet)
        | OrdersNotFound \<Rightarrow> (OrdersNotFound, Some sheet)
        | TooFewColumns \<Rightarrow> (TooFewColumns, Some sheet)
        | NoDataOrMissingColumns \<Rightarrow> (NoDataOrMissingColumns, Some sheet)
        | NoDataRows \<Rightarrow> (NoDataRows, Some sheet))"
proof
  show "buildOrdersFromJson ordersJsonSheet (snd (buildOrdersFromJson ordersJsonSheet ordersSheet))
     = buildOrdersFromJson ordersJsonSheet ordersSheet"
  proof (cases ordersJsonSheet)
    case None
    then show ?thesis by (simp add: buildOrdersFromJson_def)
  next
    case (Some journal)
    show ?thesis
    proof (cases ordersSheet)
      case None
      with Some show ?thesis by (simp add: buildOrdersFromJson_def)
    next
      case sheet: (Some sheet)
      show ?thesis
      proof (cases "refused journal sheet")
        case (Some a)
        with \<open>ordersJsonSheet = Some journal\<close> sheet show ?thesis
          by (simp add: buildOrdersFromJson_cases)
      next
        case None
        from rebuilt_sheet[of journal sheet] obtain k sheet'
          where r: "rebuilt journal sheet = (Replayed k, Some sheet')"
            and h: "sheet_headers sheet' = sheet_headers sheet" by blast
        have "refused journal sheet' = None"
          using None refused_headers[OF h] by simp
        moreover have "rebuilt journal sheet' = rebuilt journal sheet"
          using h by (rule rebuilt_headers)
        ultimately show ?thesis
          using None r \<open>ordersJsonSheet = Some journal\<close> sheet
          by (simp add: buildOrdersFromJson_cases)
      qed
    qed
  qed
next
  let ?clean = "sheet\<lparr>sheet_rows := []\<rparr>"
  have h: "sheet_headers ?clean = sheet_headers sheet" by simp
  show "buildOrdersFromJson ordersJsonSheet (Some sheet)
     = (case fst (buildOrdersFromJson ordersJsonSheet (Some ?clean)) of
          Replayed k \<Rightarrow> buildOrdersFromJson ordersJsonSheet (Some ?clean)
        | OrdersJsonNotFound \<Rightarrow> (OrdersJsonNotFound, Some sheet)
        | OrdersNotFound \<Rightarrow> (OrdersNotFound, Some sheet)
        | TooFewColumns \<Rightarrow> (TooFewColumns, Some sheet)
        | NoDataOrMissingColumns \<Rightarrow> (NoDataOrMissingColumns, Some sheet)
        | NoDataRows \<Rightarrow> (NoDataRows, Some sheet))"
  proof (cases ordersJsonSheet)
    case None
    then show ?thesis by (simp add: buildOrdersFromJson_def)
  next
    case (Some journal)
    show ?thesis
    proof (cases "refused journal sheet")
      case None
      from rebuilt_sheet[of journal ?clean] obtain k sheet'
        where r: "rebuilt journal ?clean = (Replayed k, Some sheet')" by blast
      have "refused journal ?clean = None"
        using None refused_headers[OF h] by simp
      moreover have "rebuilt journal ?clean = rebuilt journal sheet"
        using h by (rule rebuilt_headers)
      ultimately have "buildOrdersFromJson (Some journal) (Some ?clean) = (Replayed k, Some sheet')"
        and "buildOrdersFromJson (Some journal) (Some sheet) = (Replayed k, Some sheet')"
        using None r by (simp_all add: buildOrdersFromJson_cases)
      then show ?thesis
        by (simp add: Some)
    next
      case a: (Some a)
      then have ra: "refused journal ?clean = Some a"
        using refused_headers[OF h] by simp
      have "a \<in> {TooFewColumns, NoDataOrMissingColumns, NoDataRows}"
        using a by (auto simp: refused_def split: if_splits)
      then show ?thesis
        using a ra Some by (auto simp: buildOrdersFromJson_cases)
    qed
  qed
qed

text \<open>
  Which journal rows are replayed: none with a blank or unparsable cell; every parsable one
  whose line items have no inherited property name; and the replayed row carries the stored
  date in its first cell unless a line item addresses that column by its name.
\<close>

lemma replayRow_skipped: "col_items row = Blank \<or> col_items row = Unparsable \<Longrightarrow> replayRow headers row = None"
  by (auto simp: replayRow_def)

lemma replayRow_parsable:
  assumes "col_items row = Items its" "\<forall>item \<in> set its. name item \<notin> set objectPrototypeKeys"
  shows "\<exists>rowData. replayRow headers row = Some rowData"
proof -
  let ?p = "\<lparr>payload_name = col_name row, phone = col_phone row,
                   delivery = col_delivery row, email = col_email row, items = its\<rparr>"
  from orderRow_total[of ?p headers "col_date row"] assms(2)
  obtain rowData where "orderRow headers (col_date row) ?p = Inr rowData" by auto
  with assms(1) show ?thesis by (simp add: replayRow_def)
qed

lemma baseRow_date: "0 < length headers \<Longrightarrow> baseRow headers date p ! 0 = date"
  by (simp add: baseRow_def setAt_def nth_append)

lemma replayRow_date:
  assumes "replayRow headers row = Some rowData" "col_items row = Items its" "0 < length headers"
    and "\<forall>item \<in> set its. name item \<noteq> headers ! 0 \<and> name item @ '' - options'' \<noteq> headers ! 0"
  shows "rowData ! 0 = col_date row"
proof -
  let ?p = "\<lparr>payload_name = col_name row, phone = col_phone row,
                   delivery = col_delivery row, email = col_email row, items = its\<rparr>"
  from assms(1,2) have ok: "orderRow headers (col_date row) ?p = Inr rowData"
    by (auto simp: replayRow_def split: sum.splits)
  then obtain m where m: "collectItems [] its = Inr m"
    and row: "rowData = foldl (writeItem headers) (baseRow headers (col_date row) ?p) (objectEntries m)"
    by (auto simp: orderRow_def split: sum.splits)
  have "\<forall>(k, v) \<in> set (objectEntries m).
          indexOf headers k \<noteq> Some 0 \<and> indexOf headers (k @ '' - options'') \<noteq> Some 0"
  proof clarify
    fix k v assume "(k, v) \<in> set (objectEntries m)"
    then have "k \<in> name ` set its"
      by (simp add: set_objectEntries collectItems_entries(2)[OF m])
    with assms(4) have "k \<noteq> headers ! 0" "k @ '' - options'' \<noteq> headers ! 0" by auto
    then show "indexOf headers k \<noteq> Some 0 \<and> indexOf headers (k @ '' - options'') \<noteq> Some 0"
      by (metis indexOf_Some)
  qed
  from nth_foldl_untouched[OF length_baseRow this] show ?thesis
    using assms(3) by (simp add: row baseRow_date)
qed

text \<open>
  The scenario of the specification: of five entries one does not parse; four rows are
  rebuilt, in journal order and with the stored dates, and four are reported.
\<close>

lemma rebuild_scenario:
  "buildOrdersFromJson
     (Some \<lparr>journal_lastColumn = 9,
            journal_rows = [exampleEntry ''d1'' (wrapOrder ''hot''), exampleEntry ''d2'' (wrapOrder ''iced''),
                            exampleEntry ''d3'' Unparsable,
                            exampleEntry ''d4'' (wrapOrder ''hot''), exampleEntry ''d5'' (wrapOrder ''hot'')]\<rparr>)
     (Some \<lparr>sheet_headers = exampleHeaders, sheet_rows = [[CDate ''d0'', CStr ''stale'']]\<rparr>)
   = (Replayed 4,
      Some \<lparr>sheet_headers = exampleHeaders,
            sheet_rows =
              [[CDate ''d1'', CStr ''Ann'', CStr ''555'', CStr ''pickup'', CStr ''ann@example.org'',
                CNum 1, CStr ''(hot)'', CStr []],
               [CDate ''d2'', CStr ''Ann'', CStr ''555'', CStr ''pickup'', CStr ''ann@example.org'',
                CNum 1, CStr ''(iced)'', CStr []],
               [CDate ''d4'', CStr ''Ann'', CStr ''555'', CStr ''pickup'', CStr ''ann@example.org'',
                CNum 1, CStr ''(hot)'', CStr []],
               [CDate ''d5'', CStr ''Ann'', CStr ''555'', CStr ''pickup'', CStr ''ann@example.org'',
                CNum 1, CStr ''(hot)'', CStr []],
               [CStr ''TOTALS'', CStr [], CStr [], CStr [], CStr [],
                CStr ''=SUM(F2:F5)'', CStr ''3x(hot), 1x(iced)'', CStr ''=SUM(H2:H5)'']]\<rparr>)"
  by code_simp

text \<open>
  C4. The rebuild is to give one row per entry whose item payload parses and to skip the
  unparsable ones. In this journal all five payloads parse; the third orders an item
  named \<open>constructor\<close>, on which the row builder throws a \<open>TypeError\<close>, and the \<open>catch\<close>
  meant for unparsable JSON skips the entry: four rows, four reported.
\<close>

theorem rebuild_skips_parsable_entry:
  "buildOrdersFromJson
     (Some \<lparr>journal_lastColumn = 9,
            journal_rows = [exampleEntry ''d1'' (wrapOrder ''hot''), exampleEntry ''d2'' (wrapOrder ''iced''),
                            exampleEntry ''d3''
                              (Items [\<lparr>name = ''constructor'', qty = Some 1,
                                       instances = Some [\<lparr>options = []\<rparr>], selectedOptions = None\<rparr>]),
                            exampleEntry ''d4'' (wrapOrder ''hot''), exampleEntry ''d5'' (wrapOrder ''hot'')]\<rparr>)
     (Some \<lparr>sheet_headers = exampleHeaders, sheet_rows = []\<rparr>)
   = (Replayed 4,
      Some \<lparr>sheet_headers = exampleHeaders,
            sheet_rows =
              [[CDate ''d1'', CStr ''Ann'', CStr ''555'', CStr ''pickup'', CStr ''ann@example.org'',
                CNum 1, CStr ''(hot)'', CStr []],
               [CDate ''d2'', CStr ''Ann'', CStr ''555'', CStr ''pickup'', CStr ''ann@example.org'',
                CNum 1, CStr ''(iced)'', CStr []],
               [CDate ''d4'', CStr ''Ann'', CStr ''555'', CStr ''pickup'', CStr ''ann@example.org'',
                CNum 1, CStr ''(hot)'', CStr []],
               [CDate ''d5'', CStr ''Ann'', CStr ''555'', CStr ''pickup'', CStr ''ann@example.org'',
                CNum 1, CStr ''(hot)'', CStr []],
               [CStr ''TOTALS'', CStr [], CStr [], CStr [], CStr [],
                CStr ''=SUM(F2:F5)'', CStr ''3x(hot), 1x(iced)'', CStr ''=SUM(H2:H5)'']]\<rparr>)
   \<and> replayRow exampleHeaders
       (exampleEntry ''d3''
          (Items [\<lparr>name = ''constructor'', qty = Some 1,
                   instances = Some [\<lparr>options = []\<rparr>], selectedOptions = None\<rparr>])) = None
   \<and> collectItems []
       [\<lparr>name = ''constructor'', qty = Some 1, instances = Some [\<lparr>options = []\<rparr>], selectedOptions = None\<rparr>]
     = Inl TypeError"
  by code_simp

end
